theory Spec2Isabelle
  imports Complex_Main "HOL-Library.AList"
begin

text \<open>
  A model of the Shelly Gen2 integration: the RPC channel to one device (class ShellyApi),
  the device sessions that keep capability values in step with notifications (BaseDevice,
  CoverDevice, SwitchDevice) and the batched network scan (class DeviceDiscovery). Each
  JavaScript function is a HOL function under its own name; exceptions and rejected
  promises are values, the state of an object is a record that is passed along, and what
  the network and the host do is given from outside. The properties follow the
  definitions.
\<close>

section \<open>JavaScript values\<close>

text \<open>
  Values that arrive over the wire are JSON. A JavaScript number is modelled as a real
  (IEEE rounding is not modelled), a string as the list of its code units (each below
  256), an object as the list of its own properties in insertion order with distinct keys,
  and \<open>undefined\<close> as \<open>None\<close> of an option.
\<close>

datatype json =
    JNull
  | JBool bool
  | JNum real
  | JStr string
  | JArr "json list"
  | JObj "(string \<times> json) list"

text \<open>
  Every object inherits from \<open>Object.prototype\<close>. These are the names of its built-in
  properties: the accessor \<open>__proto__\<close>, whose getter returns the prototype of the object
  it is read from and whose setter replaces it, and eleven functions. None of the property
  names that the program reads from a message, an envelope or a result is among them.
\<close>

definition object_prototype_names :: "string list" where
  "object_prototype_names =
     [''__proto__'', ''constructor'', ''__defineGetter__'', ''__defineSetter__'',
      ''hasOwnProperty'', ''__lookupGetter__'', ''__lookupSetter__'', ''isPrototypeOf'',
      ''propertyIsEnumerable'', ''toString'', ''valueOf'', ''toLocaleString'']"

text \<open>An exception value: the kinds the code can meet, with \<open>Error\<close> carrying its
  message and its optional \<open>code\<close> property.\<close>

datatype js_error =
    TypeError string
  | ReferenceError string
  | SyntaxError string
  | Error string "string option"
  | RpcError json

text \<open>\<open>RpcError e\<close> stands for \<open>new Error(`RPC Error ${e.code}: ${e.message}`)\<close>, built
  from the error object \<open>e\<close> of a response; it has no \<open>code\<close> property of its own.\<close>

fun err_message :: "js_error \<Rightarrow> string" where
  "err_message (TypeError m) = m"
| "err_message (ReferenceError m) = m"
| "err_message (SyntaxError m) = m"
| "err_message (Error m c) = m"
| "err_message (RpcError e) = ''RPC Error''"

fun err_code :: "js_error \<Rightarrow> string option" where
  "err_code (Error m c) = c"
| "err_code e = None"

text \<open>
  How a synchronous segment of the channel ends when it does not return: with an exception
  (\<open>Throws\<close>), or at an assignment \<open>updates[component][index] = value\<close> of
  \<open>handleNotification\<close> that does not land in the structure being built
  (\<open>Escapes component index value\<close>). The channel is modelled as long as objects have
  their own properties and the built-in ones of \<open>Object.prototype\<close> only; such an
  assignment ends that, and the model does not follow the program beyond it.
\<close>

datatype halt = Throws js_error | Escapes string string json

text \<open>The truthiness test behind \<open>if (x)\<close>, \<open>x && y\<close> and \<open>x || y\<close>.\<close>

fun truthy :: "json \<Rightarrow> bool" where
  "truthy JNull = False"
| "truthy (JBool b) = b"
| "truthy (JNum x) = (x \<noteq> 0)"
| "truthy (JStr s) = (s \<noteq> [])"
| "truthy (JArr xs) = True"
| "truthy (JObj kvs) = True"

text \<open>Reading a named (non-index) property \<open>v.name\<close> of a value that is not
  \<open>null\<close>, while \<open>Object.prototype\<close> carries its built-in properties only and the
  name is none of them: only objects have such properties, and only as their own.\<close>

fun field :: "json \<Rightarrow> string \<Rightarrow> json option" where
  "field (JObj kvs) k = map_of kvs k"
| "field v k = None"

text \<open>Decimal text of a number, as the conversion of a number to a string produces it.\<close>

fun show_nat_fuel :: "nat \<Rightarrow> nat \<Rightarrow> string" where
  "show_nat_fuel 0 n = [''0123456789'' ! (n mod 10)]"
| "show_nat_fuel (Suc f) n =
     (if n < 10 then [''0123456789'' ! n]
      else show_nat_fuel f (n div 10) @ [''0123456789'' ! (n mod 10)])"

definition show_nat :: "nat \<Rightarrow> string" where
  "show_nat n = show_nat_fuel n n"

definition truthy_opt :: "json option \<Rightarrow> bool" where
  "truthy_opt v = (case v of None \<Rightarrow> False | Some x \<Rightarrow> truthy x)"

text \<open>\<open>str.split(sep)\<close>: the pieces between the separators; always at least one piece.\<close>

fun split_on :: "char \<Rightarrow> string \<Rightarrow> string list" where
  "split_on sep [] = [[]]"
| "split_on sep (c # cs) =
     (if c = sep then [] # split_on sep cs
      else (case split_on sep cs of
              p # ps \<Rightarrow> (c # p) # ps
            | [] \<Rightarrow> [[c]]))"

definition nth_opt :: "'a list \<Rightarrow> nat \<Rightarrow> 'a option" where
  "nth_opt xs i = (if i < length xs then Some (xs ! i) else None)"

text \<open>\<open>str.includes(sub)\<close>.\<close>

fun str_includes :: "string \<Rightarrow> string \<Rightarrow> bool" where
  "str_includes [] sub = (sub = [])"
| "str_includes (c # cs) sub = (take (length sub) (c # cs) = sub \<or> str_includes cs sub)"

text \<open>\<open>Object.entries(v)\<close> of a value that is neither \<open>null\<close> nor \<open>undefined\<close>.\<close>

fun entries :: "json \<Rightarrow> (string \<times> json) list" where
  "entries (JObj kvs) = kvs"
| "entries (JArr xs) = zip (map show_nat [0..<length xs]) xs"
| "entries (JStr cs) = zip (map show_nat [0..<length cs]) (map (\<lambda>c. JStr [c]) cs)"
| "entries v = []"

section \<open>The notification envelope\<close>

text \<open>
  What the channel hands to the registered handler: \<open>{ timestamp, updates }\<close>, where
  \<open>updates\<close> maps a component name to an object that maps an index key to the changed
  fields. The device classes also read \<open>data.event\<close>, which the channel never sets.

  The objects of an envelope inherit from \<open>Object.prototype\<close> like all others, and a
  handler may run in a process where that object has been given further properties (by an
  escaping assignment of a channel, or by other code). \<open>inherited\<close> holds these further
  properties as they are when the handler reads; the channel of this model, which stops at
  an escaping assignment, passes envelopes with none.
\<close>

type_synonym updates = "(string \<times> (string \<times> json) list) list"

record notification =
  timestamp :: "json option"
  updates :: updates
  event :: "json option"
  inherited :: "(string \<times> json) list"

definition envelope :: "json option \<Rightarrow> updates \<Rightarrow> notification" where
  "envelope ts upd = \<lparr>timestamp = ts, updates = upd, event = None, inherited = []\<rparr>"

text \<open>The own entry of the structure under a component and an index.\<close>

definition lookup2 :: "updates \<Rightarrow> string \<Rightarrow> string \<Rightarrow> json option" where
  "lookup2 u component idx =
     (case map_of u component of None \<Rightarrow> None | Some m \<Rightarrow> map_of m idx)"

text \<open>
  Reading \<open>v[k]\<close> from a value that is neither \<open>null\<close> nor \<open>undefined\<close>, where
  \<open>proto\<close> holds the further properties of \<open>Object.prototype\<close> and \<open>k\<close> is one of the
  names a device class reads (a field name or the text of a channel number, none of them
  \<open>length\<close> or a built-in property of a prototype): an own property (of an object; an
  element of an array or a character of a string under its index) when there is one, else
  what the value inherits from \<open>Object.prototype\<close>.
\<close>

definition get_prop :: "(string \<times> json) list \<Rightarrow> json \<Rightarrow> string \<Rightarrow> json option" where
  "get_prop proto v k =
     (case map_of (entries v) k of
        Some x \<Rightarrow> Some x
      | None \<Rightarrow> map_of proto k)"

text \<open>\<open>data.updates[name]\<close>: the own entry of the structure, else an inherited
  property; and \<open>data.event\<close>.\<close>

definition updates_prop :: "notification \<Rightarrow> string \<Rightarrow> json option" where
  "updates_prop data name =
     (case map_of (updates data) name of
        Some inner \<Rightarrow> Some (JObj inner)
      | None \<Rightarrow> map_of (inherited data) name)"

definition event_prop :: "notification \<Rightarrow> json option" where
  "event_prop data =
     (case event data of
        Some ev \<Rightarrow> Some ev
      | None \<Rightarrow> map_of (inherited data) ''event'')"

section \<open>The RPC channel (class ShellyApi): state\<close>

datatype readyState = CONNECTING | OPEN

text \<open>A pending slot \<open>{resolve, reject}\<close> closes over the timer and the promise of the
  request that created it; both are identified by that request's message id.\<close>

datatype resolver = Resolver nat

type_synonym handler = "notification \<Rightarrow> js_error option"

text \<open>A request as serialised and handed to the socket (\<open>jsonrpc\<close> is always "2.0").\<close>

record wire =
  w_id :: nat
  w_src :: string
  w_method :: string
  w_params :: json

datatype outcome = Resolved "json option" | Rejected js_error

text \<open>
  The instance fields of the class, followed by the part of the event loop that belongs
  to the instance: the armed request timers (message id to deadline), the settled request
  promises, the messages logged and handed to \<open>ws.send\<close>, the envelopes passed to the
  handler, and the time in milliseconds. \<open>messageId\<close> is a natural number: the loss of
  precision of a double beyond \<open>2^53\<close> is not modelled.
\<close>

record ShellyApi =
  ip :: string
  deviceId :: "string option"
  ws :: "readyState option"
  isConnected :: bool
  messageId :: nat
  pendingRequests :: "nat \<rightharpoonup> resolver"
  notificationHandler :: "handler option"
  timers :: "nat \<rightharpoonup> nat"
  settled :: "nat \<rightharpoonup> outcome"
  sendLog :: "wire list"
  delivered :: "notification list"
  clock :: nat

definition ShellyApi_new :: "string \<Rightarrow> string option \<Rightarrow> ShellyApi" where
  "ShellyApi_new ipaddr devId =
     \<lparr>ip = ipaddr, deviceId = devId, ws = None, isConnected = False, messageId = 1,
      pendingRequests = Map.empty, notificationHandler = None,
      timers = Map.empty, settled = Map.empty, sendLog = [], delivered = [], clock = 0\<rparr>"

definition REQUEST_TIMEOUT :: nat where
  "REQUEST_TIMEOUT = 5000"

definition RETRY_DELAY :: nat where
  "RETRY_DELAY = 1000"

definition RETRYABLE_ERRORS :: "string list" where
  "RETRYABLE_ERRORS = [''EHOSTUNREACH'', ''ETIMEDOUT'', ''ECONNREFUSED'']"

definition setNotificationHandler :: "handler option \<Rightarrow> ShellyApi \<Rightarrow> ShellyApi" where
  "setNotificationHandler h a = a\<lparr>notificationHandler := h\<rparr>"

definition cleanupWebSocket :: "ShellyApi \<Rightarrow> ShellyApi" where
  "cleanupWebSocket a =
     (case ws a of
        Some sock \<Rightarrow> a\<lparr>ws := None, isConnected := False\<rparr>
      | None \<Rightarrow> a)"

definition disconnect :: "ShellyApi \<Rightarrow> ShellyApi" where
  "disconnect a = cleanupWebSocket a"

section \<open>The RPC channel: operations\<close>

definition settle :: "nat \<Rightarrow> outcome \<Rightarrow> ShellyApi \<Rightarrow> ShellyApi" where
  \<comment> \<open>\<open>resolve\<close> or \<open>reject\<close> of a request's promise: only the first call has an effect\<close>
  "settle p out a =
     (case settled a p of
        None \<Rightarrow> a\<lparr>settled := (settled a)(p \<mapsto> out)\<rparr>
      | Some first \<Rightarrow> a)"

definition clearTimeout :: "nat \<Rightarrow> ShellyApi \<Rightarrow> ShellyApi" where
  "clearTimeout p a = a\<lparr>timers := (timers a)(p := None)\<rparr>"

text \<open>The callback of the request timer: \<open>this.pendingRequests.delete(msgId);
  reject(new Error('REQUEST_TIMEOUT'))\<close>.\<close>

definition requestTimeout :: "nat \<Rightarrow> ShellyApi \<Rightarrow> ShellyApi" where
  "requestTimeout msgId a =
     settle msgId (Rejected (Error ''REQUEST_TIMEOUT'' None))
       (a\<lparr>timers := (timers a)(msgId := None),
          pendingRequests := (pendingRequests a)(msgId := None)\<rparr>)"

text \<open>Time passes: every armed timer whose deadline is reached runs its callback.\<close>

definition fire_due :: "nat \<Rightarrow> ShellyApi \<Rightarrow> ShellyApi" where
  "fire_due k a =
     (case timers a k of
        None \<Rightarrow> a
      | Some deadline \<Rightarrow> if deadline \<le> clock a then requestTimeout k a else a)"

definition elapse :: "nat \<Rightarrow> ShellyApi \<Rightarrow> ShellyApi" where
  "elapse d a = fold fire_due [0..<messageId a] (a\<lparr>clock := clock a + d\<rparr>)"

datatype send_result = SendOk | SendThrows js_error

text \<open>
  The body of \<open>request\<close> after the connection check: the message is built with the next
  id, the promise's executor arms the timer, stores the slot, logs the message and calls
  \<open>this.ws.send\<close>. When the send throws (or \<open>this.ws\<close> is \<open>null\<close>), the catch block
  clears the timer and then evaluates \<open>this.pendingRequests.delete(id)\<close>; no variable
  \<open>id\<close> is in scope, so evaluating the argument raises ReferenceError, the executor ends
  there and the promise is rejected with that error. The slot stays in the map and the rest
  of the catch block (the retry after \<open>RETRY_DELAY\<close>, or \<open>reject(err)\<close>) is never reached.
\<close>

definition request_send :: "string \<Rightarrow> json \<Rightarrow> send_result \<Rightarrow> ShellyApi \<Rightarrow> nat \<times> ShellyApi" where
  "request_send method params sr a =
     (let msgId = messageId a;
          message = \<lparr>w_id = msgId,
                     w_src = (case deviceId a of
                                None \<Rightarrow> ''homey_default''
                              | Some d \<Rightarrow> if d = [] then ''homey_default'' else d),
                     w_method = method, w_params = params\<rparr>;
          a1 = a\<lparr>messageId := msgId + 1\<rparr>;
          a2 = a1\<lparr>timers := (timers a1)(msgId \<mapsto> clock a1 + REQUEST_TIMEOUT)\<rparr>;
          a3 = a2\<lparr>pendingRequests := (pendingRequests a2)(msgId \<mapsto> Resolver msgId)\<rparr>;
          a4 = a3\<lparr>sendLog := sendLog a3 @ [message]\<rparr>;
          sent = (case ws a4 of
                    None \<Rightarrow> SendThrows (TypeError ''Cannot read properties of null'')
                  | Some sock \<Rightarrow> sr)
      in case sent of
           SendOk \<Rightarrow> (msgId, a4)
         | SendThrows err \<Rightarrow>
             (msgId, settle msgId (Rejected (ReferenceError ''id is not defined''))
                       (clearTimeout msgId a4)))"

text \<open>The key under which \<open>this.pendingRequests.get(message.id)\<close> looks: the map's keys
  are the numbers assigned by \<open>request\<close>, so only a number equal to one of them matches.\<close>

definition id_key :: "json option \<Rightarrow> nat option" where
  "id_key v =
     (case v of
        Some (JNum x) \<Rightarrow> if 0 \<le> x \<and> x = of_int \<lfloor>x\<rfloor> then Some (nat \<lfloor>x\<rfloor>) else None
      | _ \<Rightarrow> None)"

definition handleRpcResponse :: "json \<Rightarrow> ShellyApi \<Rightarrow> ShellyApi" where
  "handleRpcResponse message a =
     (case id_key (field message ''id'') of
        None \<Rightarrow> a
      | Some k \<Rightarrow>
          (case pendingRequests a k of
             None \<Rightarrow> a
           | Some (Resolver p) \<Rightarrow>
               let a1 = a\<lparr>pendingRequests := (pendingRequests a)(k := None)\<rparr>
               in (case field message ''error'' of
                     None \<Rightarrow> settle p (Resolved (field message ''result'')) (clearTimeout p a1)
                   | Some e \<Rightarrow>
                       if truthy e then settle p (Rejected (RpcError e)) (clearTimeout p a1)
                       else settle p (Resolved (field message ''result'')) (clearTimeout p a1))))"

text \<open>
  The loop of \<open>handleNotification\<close> over \<open>Object.entries(params)\<close>, one entry at a
  time: the key is split at \<open>':'\<close>, the first piece names the component, the second (or
  the text "undefined" when there is none) the index. \<open>updates\<close> starts as \<open>{}\<close>, so
  \<open>updates[component]\<close> reads an own property or, failing that, what \<open>{}\<close> inherits.

  \<^item> For a component that is not a property of \<open>Object.prototype\<close> the read yields the
    object filed before or \<open>undefined\<close>, \<open>updates[component] = ... || {}\<close> keeps or
    creates the own entry, and \<open>updates[component][index] = value\<close> sets an own property
    of that entry, unless the index is \<open>__proto__\<close>: that assignment calls the inherited
    setter, which replaces the prototype of the entry (or does nothing) and files no
    property.
  \<^item> For the component \<open>__proto__\<close> the read yields \<open>Object.prototype\<close> itself, the
    first assignment calls the setter with it and creates no entry, and the second assigns
    \<open>Object.prototype[index] = value\<close>: the value is then inherited by every object of the
    process.
  \<^item> For a component that names a built-in function of \<open>Object.prototype\<close> the read
    yields that function, which becomes the entry, and the second assignment sets a
    property of the function, which all objects share.

  In the first case without \<open>__proto__\<close> as index the entry is filed (\<open>AList.update\<close>
  replaces the value of a key that is present and appends a new key otherwise); in all other
  cases the assignment escapes.
\<close>

definition reshape_entry :: "string \<times> json \<Rightarrow> updates \<Rightarrow> halt + updates" where
  "reshape_entry kv u =
     (if fst kv = ''ts'' then Inr u
      else
        (case split_on CHR '':'' (fst kv) of
           [] \<Rightarrow> Inr u
         | component # rest \<Rightarrow>
             let idx = (case rest of [] \<Rightarrow> ''undefined'' | i # others \<Rightarrow> i)
             in if component \<in> set object_prototype_names \<or> idx = ''__proto__''
                then Inl (Escapes component idx (snd kv))
                else
                  let inner = (case map_of u component of None \<Rightarrow> [] | Some m \<Rightarrow> m)
                  in Inr (AList.update component (AList.update idx (snd kv) inner) u)))"

fun reshape_from :: "(string \<times> json) list \<Rightarrow> updates \<Rightarrow> halt + updates" where
  "reshape_from [] u = Inr u"
| "reshape_from (kv # kvs) u =
     (case reshape_entry kv u of
        Inl stop \<Rightarrow> Inl stop
      | Inr u' \<Rightarrow> reshape_from kvs u')"

definition reshape :: "json \<Rightarrow> halt + updates" where
  "reshape params = reshape_from (entries params) []"

text \<open>The second half of \<open>handleNotification\<close>: the envelope is built from
  \<open>params\<close> and, when a handler is registered, passed to it inside \<open>try/catch\<close>; an
  exception of the handler is logged and goes no further.\<close>

definition deliver :: "json \<Rightarrow> ShellyApi \<Rightarrow> halt + ShellyApi" where
  "deliver params a =
     (let ts = field params ''ts''
      in case reshape params of
           Inl stop \<Rightarrow> Inl stop
         | Inr upd \<Rightarrow>
             (case notificationHandler a of
                None \<Rightarrow> Inr a
              | Some h \<Rightarrow>
                  let a1 = a\<lparr>delivered := delivered a @ [envelope ts upd]\<rparr>
                  in (case h (envelope ts upd) of
                        None \<Rightarrow> Inr a1
                      | Some err \<Rightarrow> Inr a1)))"

definition handleNotification :: "json \<Rightarrow> ShellyApi \<Rightarrow> halt + ShellyApi" where
  "handleNotification message a =
     (if (case field message ''dst'' of
            None \<Rightarrow> False
          | Some d \<Rightarrow> truthy d \<and> Some d \<noteq> map_option JStr (deviceId a))
      then Inr a
      else
        (case field message ''params'' of
           None \<Rightarrow> Inl (Throws (TypeError ''Cannot read properties of undefined''))
         | Some params \<Rightarrow>
             if params = JNull then Inl (Throws (TypeError ''Cannot read properties of null''))
             else deliver params a))"

definition is_notification :: "json \<Rightarrow> bool" where
  "is_notification message =
     (field message ''method'' = Some (JStr ''NotifyStatus'') \<or>
      field message ''method'' = Some (JStr ''NotifyEvent''))"

definition handleMessage :: "json \<Rightarrow> ShellyApi \<Rightarrow> halt + ShellyApi" where
  "handleMessage message a =
     (if message = JNull then Inl (Throws (TypeError ''Cannot read properties of null''))
      else if is_notification message then handleNotification message a
      else if truthy_opt (field message ''id'') then Inr (handleRpcResponse message a)
      else Inr a)"

definition retryable :: "js_error \<Rightarrow> bool" where
  "retryable err =
     (case err_code err of None \<Rightarrow> False | Some c \<Rightarrow> c \<in> set RETRYABLE_ERRORS)"

definition handleError :: "js_error \<Rightarrow> ShellyApi \<Rightarrow> js_error \<times> ShellyApi" where
  "handleError err a =
     (let a1 = cleanupWebSocket a;
          isNotShellyResponse = (str_includes (err_message err) ''404'' \<or>
                                 str_includes (err_message err) ''Unexpected server response'');
          enhancedError =
            (if isNotShellyResponse
             then Error ''Device discovery: not a Shelly device'' (Some ''NOT_SHELLY_DEVICE'')
             else (case err_code err of
                     Some c \<Rightarrow>
                       if c \<noteq> [] then Error ''Device discovery: connection failed'' (Some c)
                       else Error ''Device discovery: connection failed''
                              (Some ''CONNECTION_FAILED'')
                   | None \<Rightarrow>
                       Error ''Device discovery: connection failed''
                         (Some ''CONNECTION_FAILED'')))
      in (enhancedError, a1))"

subsection \<open>One call in isolation\<close>

text \<open>
  What the device and the transport do during one call is given from outside: whether a new
  socket opens or fails, whether a send throws, and whether a response to a sent request
  arrives before its timer fires.
\<close>

datatype exchange = RespondsResult json | RespondsError json | NoResponse

datatype transport = Opens send_result exchange | Fails js_error

record attempt_env =
  transport :: transport
  sendResult :: send_result
  exchange :: exchange

definition await_exchange :: "nat \<Rightarrow> exchange \<Rightarrow> ShellyApi \<Rightarrow> ShellyApi" where
  "await_exchange k ex a =
     (case settled a k of
        Some out \<Rightarrow> a
      | None \<Rightarrow>
          (case ex of
             RespondsResult r \<Rightarrow>
               handleRpcResponse (JObj [(''id'', JNum (real k)), (''result'', r)]) a
           | RespondsError e \<Rightarrow>
               handleRpcResponse (JObj [(''id'', JNum (real k)), (''error'', e)]) a
           | NoResponse \<Rightarrow> elapse REQUEST_TIMEOUT a))"

text \<open>
  \<open>connect\<close>: with a socket present the call returns a resolved promise. Otherwise a
  socket is created; on its \<open>error\<close> event \<open>handleError\<close> rejects the promise; on its
  \<open>open\<close> event the flag is set and \<open>getStatus()\<close> is awaited inside \<open>try/catch\<close>
  before \<open>resolve()\<close>. That inner \<open>request\<close> runs on a connected channel, so it is
  \<open>request_send\<close> followed by the end of its exchange. \<open>opened\<close> counts the sockets
  created.
\<close>

definition connect :: "transport \<Rightarrow> ShellyApi \<Rightarrow> (js_error + unit) \<times> nat \<times> ShellyApi" where
  "connect tr a =
     (if ws a \<noteq> None then (Inr (), 0, a)
      else
        let a1 = a\<lparr>ws := Some CONNECTING\<rparr>
        in (case tr of
              Fails err \<Rightarrow> (case handleError err a1 of (e, a2) \<Rightarrow> (Inl e, 1, a2))
            | Opens sr ex \<Rightarrow>
                let a2 = a1\<lparr>ws := Some OPEN, isConnected := True\<rparr>
                in (case request_send ''Shelly.GetStatus'' (JObj []) sr a2 of
                      (k, a3) \<Rightarrow> (Inr (), 1, await_exchange k ex a3))))"

text \<open>One pass through the \<open>try\<close> block of \<open>request\<close>: \<open>Inl\<close> is an error that reaches
  the outer \<open>catch\<close> (only \<open>await this.connect()\<close> can raise one), \<open>Inr\<close> is the state of
  the returned promise once its exchange has ended.\<close>

definition try_once ::
    "attempt_env \<Rightarrow> string \<Rightarrow> json \<Rightarrow> ShellyApi \<Rightarrow> (js_error + outcome option) \<times> ShellyApi" where
  "try_once e method params a =
     (case (if \<not> isConnected a then connect (transport e) a else (Inr (), 0, a)) of
        (Inl err, n, a1) \<Rightarrow> (Inl err, a1)
      | (Inr u, n, a1) \<Rightarrow>
          (case request_send method params (sendResult e) a1 of
             (k, a2) \<Rightarrow>
               let a3 = await_exchange k (exchange e) a2
               in (Inr (settled a3 k), a3)))"

datatype action = RequestCall nat | Backoff nat

text \<open>\<open>request(method, params, retries)\<close> with its outer \<open>catch\<close>; the environment of
  an attempt is looked up by the number of retries left. The result is the outcome of the
  call, the calls of \<open>request\<close> and the delays between them in order, and the final state.\<close>

fun request ::
    "nat \<Rightarrow> (nat \<Rightarrow> attempt_env) \<Rightarrow> string \<Rightarrow> json \<Rightarrow> ShellyApi
       \<Rightarrow> outcome option \<times> action list \<times> ShellyApi" where
  "request 0 env method params a =
     (case try_once (env 0) method params a of
        (Inl err, a1) \<Rightarrow> (Some (Rejected err), [RequestCall 0], a1)
      | (Inr out, a1) \<Rightarrow> (out, [RequestCall 0], a1))"
| "request (Suc r) env method params a =
     (case try_once (env (Suc r)) method params a of
        (Inl err, a1) \<Rightarrow>
          if retryable err
          then (case request r env method params (elapse RETRY_DELAY a1) of
                  (out, tr, a2) \<Rightarrow> (out, RequestCall (Suc r) # Backoff RETRY_DELAY # tr, a2))
          else (Some (Rejected err), [RequestCall (Suc r)], a1)
      | (Inr out, a1) \<Rightarrow> (out, [RequestCall (Suc r)], a1))"

subsection \<open>The channel over its lifetime\<close>

text \<open>
  The synchronous segments that change a channel, as events: a call of \<open>connect\<close>, the
  socket's \<open>open\<close>, \<open>message\<close>, \<open>close\<close> and \<open>error\<close> events, the synchronous part of
  a \<open>request\<close>, the passing of time, \<open>disconnect\<close> and \<open>setNotificationHandler\<close>. An
  exception that leaves an event listener ends the run, and so does an assignment that
  escapes.
\<close>

datatype event =
    Connect
  | Ws_open send_result
  | Ws_message json
  | Ws_close
  | Ws_error js_error
  | Request string json send_result
  | Elapse nat
  | Disconnect
  | Set_handler "handler option"

fun step :: "event \<Rightarrow> ShellyApi \<Rightarrow> halt + ShellyApi" where
  "step Connect a = Inr (if ws a \<noteq> None then a else a\<lparr>ws := Some CONNECTING\<rparr>)"
| "step (Ws_open sr) a =
     Inr (if ws a = Some CONNECTING
          then snd (request_send ''Shelly.GetStatus'' (JObj []) sr
                      (a\<lparr>ws := Some OPEN, isConnected := True\<rparr>))
          else a)"
| "step (Ws_message m) a = handleMessage m a"
| "step Ws_close a = Inr (a\<lparr>isConnected := False, ws := None\<rparr>)"
| "step (Ws_error err) a = Inr (snd (handleError err a))"
| "step (Request method params sr) a = Inr (snd (request_send method params sr a))"
| "step (Elapse d) a = Inr (elapse d a)"
| "step Disconnect a = Inr (disconnect a)"
| "step (Set_handler h) a = Inr (setNotificationHandler h a)"

fun run :: "ShellyApi \<Rightarrow> event list \<Rightarrow> halt + ShellyApi" where
  "run a [] = Inr a"
| "run a (e # es) = (case step e a of Inl stop \<Rightarrow> Inl stop | Inr a' \<Rightarrow> run a' es)"

text \<open>
  Member lookup on a ShellyApi instance. The class defines exactly the members below;
  the synchronous ones that only change the instance carry their meaning, the others
  (logging, message handling and the promise-returning calls) are marked \<open>Other\<close>.
  A name that is not a member reads as \<open>undefined\<close>, and calling it raises TypeError.
\<close>

datatype member = Method "handler option \<Rightarrow> ShellyApi \<Rightarrow> ShellyApi" | Other

definition ShellyApi_member :: "string \<Rightarrow> member option" where
  "ShellyApi_member name =
     (if name = ''setNotificationHandler'' then Some (Method setNotificationHandler)
      else if name = ''cleanupWebSocket'' then Some (Method (\<lambda>arg. cleanupWebSocket))
      else if name = ''disconnect'' then Some (Method (\<lambda>arg. disconnect))
      else if name \<in> set [''log'', ''error'', ''connect'', ''handleMessage'',
                ''handleNotification'', ''handleRpcResponse'', ''handleError'', ''request'',
                ''getDeviceInfo'', ''getStatus'', ''getCoverStatus'', ''coverGoToPosition'',
                ''coverOpen'', ''coverClose'', ''coverStop'', ''getSwitchStatus'',
                ''switchSet'']
      then Some Other
      else None)"

definition call_api :: "string \<Rightarrow> handler option \<Rightarrow> ShellyApi \<Rightarrow> js_error + ShellyApi" where
  "call_api name arg a =
     (case ShellyApi_member name of
        Some (Method f) \<Rightarrow> Inr (f arg a)
      | Some Other \<Rightarrow> Inr a
      | None \<Rightarrow> Inl (TypeError (''this.api.'' @ name @ '' is not a function'')))"

section \<open>Device sessions (BaseDevice, CoverDevice, SwitchDevice)\<close>

text \<open>The host's capability-write sink: a write is accepted, fails because the device
  record no longer exists (status code 404), or fails otherwise.\<close>

datatype sink_result = Accepted | NotFound | Failed

type_synonym host = "string \<Rightarrow> json \<Rightarrow> sink_result"

datatype jsnum = NaN | Num int

record session =
  dataId :: string
  capabilityValues :: "string \<rightharpoonup> json"
  channelNumber :: "jsnum option"
  api :: "ShellyApi option"

text \<open>\<open>this.device.setCapabilityValue(capability, value)\<close>: the value is stored when
  the host accepts the write; otherwise the promise rejects with the sink's result.\<close>

definition setCapabilityValue :: "host \<Rightarrow> string \<Rightarrow> json \<Rightarrow> session \<Rightarrow> sink_result + session" where
  "setCapabilityValue h capability v s =
     (case h capability v of
        Accepted \<Rightarrow> Inr (s\<lparr>capabilityValues := (capabilityValues s)(capability \<mapsto> v)\<rparr>)
      | r \<Rightarrow> Inl r)"

definition setCapabilityValueSafe :: "host \<Rightarrow> string \<Rightarrow> json \<Rightarrow> session \<Rightarrow> session" where
  "setCapabilityValueSafe h capability v s =
     (case setCapabilityValue h capability v s of
        Inr s' \<Rightarrow> s'
      | Inl NotFound \<Rightarrow>
          (case api s of Some a \<Rightarrow> s\<lparr>api := Some (disconnect a)\<rparr> | None \<Rightarrow> s)
      | Inl r \<Rightarrow> s)"

text \<open>The handler a session registers is its bound, asynchronous \<open>handleNotification\<close>:
  calling it returns a promise and never throws synchronously.\<close>

definition bound_handler :: handler where
  "bound_handler = (\<lambda>d. None)"

definition destroy :: "session \<Rightarrow> js_error + session" where
  "destroy s =
     (case api s of
        None \<Rightarrow> Inr s
      | Some a \<Rightarrow>
          (case call_api ''removeNotificationHandler'' (Some bound_handler) a of
             Inl e \<Rightarrow> Inl e
           | Inr a1 \<Rightarrow>
               (case call_api ''disconnect'' None a1 of
                  Inl e \<Rightarrow> Inl e
                | Inr a2 \<Rightarrow> Inr (s\<lparr>api := Some a2\<rparr>))))"

subsection \<open>CoverDevice\<close>

fun mapCoverState :: "json \<Rightarrow> string" where
  "mapCoverState (JStr st) =
     (if st = ''opening'' then ''up''
      else if st = ''closing'' then ''down''
      else if st = ''stopped'' then ''idle''
      else ''idle'')"
| "mapCoverState v = ''idle''"

text \<open>A write that goes straight to the host with \<open>.catch(this.device.error)\<close>.\<close>

definition setCapabilityValue_caught :: "host \<Rightarrow> string \<Rightarrow> json \<Rightarrow> session \<Rightarrow> session" where
  "setCapabilityValue_caught h capability v s =
     (case setCapabilityValue h capability v s of Inr s' \<Rightarrow> s' | Inl r \<Rightarrow> s)"

text \<open>\<open>if (typeof x === "number") await this.setCapabilityValueSafe(capability, conv(x))\<close>
  for a value \<open>x\<close> that was read from a property.\<close>

definition numberField :: "host \<Rightarrow> json option \<Rightarrow> string \<Rightarrow> (real \<Rightarrow> real) \<Rightarrow> session \<Rightarrow> session" where
  "numberField h x capability conv s =
     (case x of
        Some (JNum n) \<Rightarrow> setCapabilityValueSafe h capability (JNum (conv n)) s
      | _ \<Rightarrow> s)"

text \<open>\<open>data.updates?.cover?.["0"]\<close>: the optional chain stops at \<open>null\<close> and
  \<open>undefined\<close> only.\<close>

definition CoverDevice_coverData :: "notification \<Rightarrow> json option" where
  "CoverDevice_coverData data =
     (case updates_prop data ''cover'' of
        None \<Rightarrow> None
      | Some cover \<Rightarrow> if cover = JNull then None else get_prop (inherited data) cover ''0'')"

definition CoverDevice_updates :: "host \<Rightarrow> notification \<Rightarrow> session \<Rightarrow> session" where
  "CoverDevice_updates h data s =
     (case CoverDevice_coverData data of
        None \<Rightarrow> s
      | Some coverData \<Rightarrow>
          if \<not> truthy coverData then s
          else
            let proto = inherited data;
                s1 = (case get_prop proto coverData ''state'' of
                        None \<Rightarrow> s
                      | Some st \<Rightarrow>
                          if truthy st
                          then setCapabilityValueSafe h ''windowcoverings_state''
                                 (JStr (mapCoverState st)) s
                          else s);
                s2 = numberField h (get_prop proto coverData ''current_pos'')
                       ''windowcoverings_set'' (\<lambda>p. p / 100) s1;
                s3 = numberField h (get_prop proto coverData ''apower'')
                       ''measure_power'' (\<lambda>p. p) s2;
                s4 = numberField h (get_prop proto coverData ''current'')
                       ''measure_current'' (\<lambda>p. p) s3
            in s4)"

definition CoverDevice_event :: "host \<Rightarrow> notification \<Rightarrow> session \<Rightarrow> session" where
  "CoverDevice_event h data s =
     (case event_prop data of
        None \<Rightarrow> s
      | Some ev \<Rightarrow>
          let proto = inherited data
          in if truthy ev \<and> get_prop proto ev ''component'' = Some (JStr ''cover:0'')
             then
               if get_prop proto ev ''event'' = Some (JStr ''start'')
               then setCapabilityValue_caught h ''windowcoverings_state''
                      (JStr (if get_prop proto ev ''direction'' = Some (JStr ''open'')
                             then ''up'' else ''down'')) s
               else if get_prop proto ev ''event'' = Some (JStr ''stop'')
               then setCapabilityValue_caught h ''windowcoverings_state'' (JStr ''idle'') s
               else s
             else s)"

definition CoverDevice_handleNotification :: "host \<Rightarrow> notification \<Rightarrow> session \<Rightarrow> session" where
  "CoverDevice_handleNotification h data s =
     CoverDevice_event h data (CoverDevice_updates h data s)"

subsection \<open>SwitchDevice\<close>

text \<open>
  \<open>parseInt(x)\<close> with no radix: the argument is converted to a string (\<open>undefined\<close>
  becomes the text "undefined"), leading white space and one sign are skipped, a
  \<open>0x\<close> prefix selects radix 16, and the longest run of digits is read; with no digit the
  result is NaN. The white space is the white space and line terminators among the code
  units below 256: tab, line feed, vertical tab, form feed, carriage return, space and
  no-break space. The integer read is exact (the rounding of a long run of digits to a
  double is not modelled).
\<close>

definition is_space :: "char \<Rightarrow> bool" where
  "is_space c =
     (c \<in> set [CHR 0x09, CHR 0x0A, CHR 0x0B, CHR 0x0C, CHR 0x0D, CHR '' '', CHR 0xA0])"

definition digit_of :: "nat \<Rightarrow> char \<Rightarrow> nat option" where
  "digit_of radix c =
     (let n = (of_char c :: nat);
          v = (if 48 \<le> n \<and> n \<le> 57 then Some (n - 48)
               else if 97 \<le> n \<and> n \<le> 122 then Some (n - 87)
               else if 65 \<le> n \<and> n \<le> 90 then Some (n - 55)
               else None)
      in case v of None \<Rightarrow> None | Some d \<Rightarrow> if d < radix then Some d else None)"

fun digits_value :: "nat \<Rightarrow> nat \<Rightarrow> string \<Rightarrow> nat" where
  "digits_value radix acc [] = acc"
| "digits_value radix acc (c # cs) =
     (case digit_of radix c of
        None \<Rightarrow> acc
      | Some d \<Rightarrow> digits_value radix (acc * radix + d) cs)"

definition strip_sign :: "string \<Rightarrow> bool \<times> string" where
  "strip_sign s =
     (case s of
        [] \<Rightarrow> (False, [])
      | c # cs \<Rightarrow>
          if c = CHR ''-'' then (True, cs)
          else if c = CHR ''+'' then (False, cs)
          else (False, s))"

definition strip_radix :: "string \<Rightarrow> nat \<times> string" where
  "strip_radix s =
     (case s of
        a # b # cs \<Rightarrow>
          if a = CHR ''0'' \<and> (b = CHR ''x'' \<or> b = CHR ''X'') then (16, cs) else (10, s)
      | _ \<Rightarrow> (10, s))"

definition read_digits :: "bool \<Rightarrow> nat \<Rightarrow> string \<Rightarrow> jsnum" where
  "read_digits neg radix s =
     (case s of
        [] \<Rightarrow> NaN
      | c # cs \<Rightarrow>
          if digit_of radix c = None then NaN
          else Num ((if neg then - 1 else 1) * int (digits_value radix 0 s)))"

definition parseInt :: "string option \<Rightarrow> jsnum" where
  "parseInt arg =
     (let s0 = (case arg of None \<Rightarrow> ''undefined'' | Some t \<Rightarrow> t);
          s1 = dropWhile is_space s0;
          (neg, s2) = strip_sign s1;
          (radix, s3) = strip_radix s2
      in read_digits neg radix s3)"

definition parse_channel :: "string \<Rightarrow> jsnum" where
  "parse_channel devId = parseInt (nth_opt (split_on CHR '':'' devId) 1)"

text \<open>The property key that \<open>obj[this.channelNumber]\<close> reads: the text of the number
  (the exponent form of numbers from \<open>1e21\<close> on is not modelled), or "undefined" before
  a channel number is assigned.\<close>

definition property_key :: "jsnum option \<Rightarrow> string" where
  "property_key v =
     (case v of
        None \<Rightarrow> ''undefined''
      | Some NaN \<Rightarrow> ''NaN''
      | Some (Num i) \<Rightarrow> (if i < 0 then ''-'' @ show_nat (nat (- i)) else show_nat (nat i)))"

text \<open>\<open>initializeCapabilities\<close>: the first write is awaited without a handler, so its
  failure ends the initialisation; the status read and the second write are inside
  \<open>try/catch\<close>. The argument \<open>status\<close> is what \<open>getSwitchStatus\<close> settles with
  (a rejection, or a result, \<open>null\<close> standing for a missing one as well), and \<open>proto\<close>
  holds the further properties of \<open>Object.prototype\<close> at that time.\<close>

definition SwitchDevice_initializeCapabilities ::
    "host \<Rightarrow> (string \<times> json) list \<Rightarrow> (js_error + json) \<Rightarrow> session \<Rightarrow> sink_result + session" where
  "SwitchDevice_initializeCapabilities h proto status s =
     (case setCapabilityValue h ''onoff'' (JBool False) s of
        Inl r \<Rightarrow> Inl r
      | Inr s1 \<Rightarrow>
          let s2 = s1\<lparr>channelNumber := Some (parse_channel (dataId s1))\<rparr>
          in (case status of
                Inr st \<Rightarrow>
                  if st = JNull then Inr s2
                  else
                    (case get_prop proto st ''output'' of
                       Some (JBool b) \<Rightarrow> Inr (setCapabilityValue_caught h ''onoff'' (JBool b) s2)
                     | _ \<Rightarrow> Inr s2)
              | Inl e \<Rightarrow> Inr s2))"

text \<open>The value of \<open>data.updates.switch && data.updates.switch[key]\<close>: a falsy
  \<open>data.updates.switch\<close> is the value itself.\<close>

definition SwitchDevice_switchState :: "notification \<Rightarrow> string \<Rightarrow> json option" where
  "SwitchDevice_switchState data key =
     (case updates_prop data ''switch'' of
        None \<Rightarrow> None
      | Some sw \<Rightarrow> if truthy sw then get_prop (inherited data) sw key else Some sw)"

definition SwitchDevice_handleNotification :: "host \<Rightarrow> notification \<Rightarrow> session \<Rightarrow> session" where
  "SwitchDevice_handleNotification h data s =
     (case SwitchDevice_switchState data (property_key (channelNumber s)) of
        None \<Rightarrow> s
      | Some switchState \<Rightarrow>
          if \<not> truthy switchState then s
          else
            let proto = inherited data;
                s1 = (case get_prop proto switchState ''output'' of
                        Some (JBool b) \<Rightarrow> setCapabilityValueSafe h ''onoff'' (JBool b) s
                      | _ \<Rightarrow> s);
                s2 = numberField h (get_prop proto switchState ''apower'')
                       ''measure_power'' (\<lambda>p. p) s1;
                s3 = numberField h (get_prop proto switchState ''current'')
                       ''measure_current'' (\<lambda>p. p) s2
            in s3)"

text \<open>\<open>new SwitchDevice(device, api)\<close> or \<open>new CoverDevice(device, api)\<close>: the
  channel number is not yet assigned.\<close>

definition session_new :: "string \<Rightarrow> ShellyApi \<Rightarrow> session" where
  "session_new devId a =
     \<lparr>dataId = devId, capabilityValues = Map.empty, channelNumber = None, api = Some a\<rparr>"

section \<open>Discovery (class DeviceDiscovery)\<close>

text \<open>Discovery is modelled in a process whose \<open>Object.prototype\<close> carries its built-in
  properties only.\<close>

definition DISCOVERY_TIMEOUT :: nat where
  "DISCOVERY_TIMEOUT = 30000"

definition SCAN_BATCH_SIZE :: nat where
  "SCAN_BATCH_SIZE = 20"

definition CONNECTION_TIMEOUT :: nat where
  "CONNECTION_TIMEOUT = 1500"

definition BATCH_DELAY :: nat where
  "BATCH_DELAY = 100"

text \<open>\<open>parts.join(sep)\<close>.\<close>

fun join :: "string \<Rightarrow> string list \<Rightarrow> string" where
  "join sep [] = []"
| "join sep [x] = x"
| "join sep (x # y # ys) = x @ sep @ join sep (y # ys)"

definition baseIp_of :: "string \<Rightarrow> string" where
  "baseIp_of localAddress = join ''.'' (take 3 (split_on CHR ''.'' localAddress))"

definition generateIpRange :: "string \<Rightarrow> string list" where
  "generateIpRange baseIp = map (\<lambda>i. baseIp @ ''.'' @ show_nat i) [1..<255]"

text \<open>
  A discovered device. The strings \<open>id\<close>, \<open>deviceId\<close> and \<open>name\<close> of the source are
  templates over \<open>info.id\<close>, \<open>info.app\<close>, the component, the channel and the address; the
  record keeps these parts instead of the formatted text.
\<close>

record device_entry =
  d_info_id :: "json option"
  d_app :: "json option"
  d_component :: string
  d_channel :: jsnum
  d_ip :: string
  d_profile :: "json option"
  d_icon :: string

definition createDeviceEntry :: "string \<Rightarrow> jsnum \<Rightarrow> json \<Rightarrow> string \<Rightarrow> device_entry" where
  "createDeviceEntry component channel info addr =
     \<lparr>d_info_id = field info ''id'', d_app = field info ''app'',
      d_component = component, d_channel = channel, d_ip = addr,
      d_profile = field info ''profile'',
      d_icon = (if field info ''app'' = Some (JStr ''Pro3'')
                then ''/images/icon_pro3.svg'' else ''/images/icon.svg'')\<rparr>"

text \<open>
  \<open>_parseComponents\<close>: the channels of the component the profile selects, keyed by the
  number \<open>parseInt\<close> reads from the text after \<open>':'\<close> (a later entry with the same number
  replaces the value of an earlier one). \<open>status\<close> and \<open>info\<close> are objects here.
\<close>

definition component_entry :: "bool \<Rightarrow> string \<times> json \<Rightarrow> (jsnum \<times> json) list \<Rightarrow> (jsnum \<times> json) list" where
  "component_entry cover kv found =
     (case split_on CHR '':'' (fst kv) of
        component # i # others \<Rightarrow>
          if (cover \<and> component = ''cover'') \<or> (\<not> cover \<and> component = ''switch'')
          then AList.update (parseInt (Some i)) (snd kv) found
          else found
      | _ \<Rightarrow> found)"

definition parseComponents :: "json \<Rightarrow> json \<Rightarrow> (jsnum \<times> json) list" where
  "parseComponents status info =
     fold (component_entry (field info ''profile'' = Some (JStr ''cover''))) (entries status) []"

text \<open>The order in which \<open>for ... in\<close> visits the keys of the found channels: the
  array indices (0 up to \<open>2^32 - 2\<close>) in ascending order, then the other keys as inserted.\<close>

fun is_index :: "jsnum \<Rightarrow> bool" where
  "is_index (Num n) = (0 \<le> n \<and> n < 4294967295)"
| "is_index NaN = False"

fun index_of :: "jsnum \<Rightarrow> int" where
  "index_of (Num n) = n"
| "index_of NaN = 0"

definition for_in_keys :: "(jsnum \<times> json) list \<Rightarrow> jsnum list" where
  "for_in_keys found =
     sort_key index_of (filter is_index (map fst found))
       @ filter (\<lambda>k. \<not> is_index k) (map fst found)"

definition createDeviceEntries :: "(jsnum \<times> json) list \<Rightarrow> json \<Rightarrow> string \<Rightarrow> device_entry list" where
  "createDeviceEntries found info addr =
     map (\<lambda>channel.
            createDeviceEntry
              (if field info ''profile'' = Some (JStr ''cover'') then ''cover'' else ''switch'')
              channel info addr)
         (for_in_keys found)"

text \<open>
  What the device at one address does when queried: the time in milliseconds after which
  \<open>_queryDevice\<close> ends, and how: \<open>getDeviceInfo\<close> rejected, \<open>getStatus\<close> rejected, or
  both resolved with the \<open>result\<close> fields of the responses (\<open>None\<close> when a response has
  none). A result that is \<open>null\<close> or \<open>undefined\<close> makes \<open>Object.entries(status)\<close> or
  \<open>info.profile\<close> raise TypeError inside the \<open>try\<close> of \<open>_queryDevice\<close>, before anything
  is appended, and the query rejects as well.
\<close>

datatype query_result =
    Answered "json option" "json option"
  | InfoRejected js_error
  | StatusRejected js_error

record probe_env =
  q_duration :: nat
  q_result :: query_result

definition toUpperCase :: "string \<Rightarrow> string" where
  "toUpperCase s =
     map (\<lambda>c. if 97 \<le> (of_char c :: nat) \<and> (of_char c :: nat) \<le> 122
              then char_of ((of_char c :: nat) - 32) else c) s"

definition queryDevice :: "query_result \<Rightarrow> string \<Rightarrow> js_error + device_entry list" where
  "queryDevice r addr =
     (case r of
        InfoRejected err \<Rightarrow>
          Inl (Error (''Device query failed: '' @ err_message err)
                 (map_option toUpperCase (err_code err)))
      | StatusRejected err \<Rightarrow>
          Inl (Error (''Device query failed: '' @ err_message err) (err_code err))
      | Answered info status \<Rightarrow>
          (case (info, status) of
             (Some i, Some st) \<Rightarrow>
               if i = JNull \<or> st = JNull
               then Inl (Error ''Device query failed: Cannot read properties of null'' None)
               else Inr (createDeviceEntries (parseComponents st i) i addr)
           | _ \<Rightarrow> Inl (Error ''Device query failed: Cannot read properties of undefined'' None)))"

text \<open>
  \<open>_tryDevice\<close>: the promise resolves when the query ends or when the timer of
  \<open>CONNECTION_TIMEOUT\<close> fires, whichever comes first, and never rejects. The timer does not
  stop the query: a query that ends well after the timer still appends its entries.
\<close>

definition tryDevice_settles :: "probe_env \<Rightarrow> nat" where
  "tryDevice_settles p = min (q_duration p) CONNECTION_TIMEOUT"

definition tryDevice_value :: "probe_env \<Rightarrow> string \<Rightarrow> bool" where
  "tryDevice_value p addr =
     (q_duration p < CONNECTION_TIMEOUT \<and>
      (case queryDevice (q_result p) addr of Inr found \<Rightarrow> True | Inl err \<Rightarrow> False))"

text \<open>One round of the loop of \<open>_scanNetworkInBatches\<close>: the addresses of the batch, the
  time the batch starts, the times at which its probes settle, and the time at which
  \<open>Promise.allSettled\<close> resolves.\<close>

record batch_run =
  b_start :: nat
  b_ips :: "string list"
  b_settled :: "nat list"
  b_joined :: nat

text \<open>
  The loop, with the time since the abort timer was set. \<open>signal.aborted\<close> holds once
  \<open>DISCOVERY_TIMEOUT\<close> has passed. Timers are taken to fire exactly when due.
\<close>

function scanNetworkInBatches ::
    "(string \<Rightarrow> probe_env) \<Rightarrow> string list \<Rightarrow> nat \<Rightarrow> nat \<Rightarrow> batch_run list" where
  "scanNetworkInBatches env ipRange i t =
     (if i < length ipRange
      then
        (if DISCOVERY_TIMEOUT \<le> t then []
         else
           let batch = take SCAN_BATCH_SIZE (drop i ipRange);
               settles = map (\<lambda>addr. t + tryDevice_settles (env addr)) batch;
               joined = fold max settles t
           in \<lparr>b_start = t, b_ips = batch, b_settled = settles, b_joined = joined\<rparr>
                # scanNetworkInBatches env ipRange (i + SCAN_BATCH_SIZE) (joined + BATCH_DELAY))
      else [])"
  by pat_completeness auto
termination
  by (relation "measure (\<lambda>(env, ipRange, i, t). length ipRange - i)")
     (auto simp: SCAN_BATCH_SIZE_def)

text \<open>The batches of one call of \<open>discoverDevices\<close>: the loop starts at index 0 when the
  abort timer has just been set.\<close>

definition scan_of :: "(string \<Rightarrow> probe_env) \<Rightarrow> string \<Rightarrow> batch_run list" where
  "scan_of env localAddress =
     scanNetworkInBatches env (generateIpRange (baseIp_of localAddress)) 0 0"

text \<open>The time at which the loop is left: after the delay that follows the last batch,
  or at the start when there is no batch.\<close>

definition scan_end :: "batch_run list \<Rightarrow> nat" where
  "scan_end runs = (case runs of [] \<Rightarrow> 0 | r # rs \<Rightarrow> b_joined (last runs) + BATCH_DELAY)"

text \<open>The entries in \<open>discoveredDevices\<close> when the loop is left: those of every probe
  whose query ended well by then, in the order in which the queries ended.\<close>

definition pushes :: "(string \<Rightarrow> probe_env) \<Rightarrow> batch_run \<Rightarrow> (nat \<times> device_entry list) list" where
  "pushes env r =
     concat (map (\<lambda>addr.
                    case queryDevice (q_result (env addr)) addr of
                      Inl err \<Rightarrow> []
                    | Inr found \<Rightarrow> [(b_start r + q_duration (env addr), found)])
                 (b_ips r))"

definition collected :: "(string \<Rightarrow> probe_env) \<Rightarrow> batch_run list \<Rightarrow> device_entry list" where
  "collected env runs =
     concat (map snd (sort_key fst
       (filter (\<lambda>p. fst p \<le> scan_end runs) (concat (map (pushes env) runs)))))"

text \<open>
  Besides answering the calls, a device may send a frame that makes the socket's
  \<open>message\<close> listener throw: text that \<open>JSON.parse\<close> refuses (SyntaxError), the frame
  \<open>null\<close> or a notification without \<open>params\<close> (TypeError in \<open>handleMessage\<close>). The
  listener has no \<open>try/catch\<close>, and it is called by the socket, not from a promise of the
  scan: the exception passes every \<open>catch\<close> of \<open>_queryDevice\<close>, \<open>_tryDevice\<close>,
  \<open>_scanNetworkInBatches\<close> and \<open>discoverDevices\<close> by, and nothing in the program handles
  it. For each address, \<open>frames\<close> gives the first such frame, if any: the time after the
  start of the probe at which it arrives, and the exception.
\<close>

type_synonym frames = "string \<Rightarrow> (nat \<times> js_error) option"

text \<open>The exceptions that leave a message listener while the loop is running, with
  their times.\<close>

definition listener_throws :: "frames \<Rightarrow> batch_run list \<Rightarrow> (nat \<times> js_error) list" where
  "listener_throws frames runs =
     filter (\<lambda>p. fst p \<le> scan_end runs)
       (concat (map (\<lambda>r. concat (map (\<lambda>addr.
                         case frames addr of
                           None \<Rightarrow> []
                         | Some (t, err) \<Rightarrow> [(b_start r + t, err)])
                      (b_ips r))) runs))"

text \<open>
  \<open>discoverDevices\<close>: a failure to read the local address is caught by the outer
  \<open>try/catch\<close>, which returns an empty list. \<open>Inl\<close> is an exception that leaves a
  message listener during the scan: it is uncaught, and the run ends with it (the earliest
  one) instead of returning a list.
\<close>

definition discoverDevices ::
    "(js_error + string) \<Rightarrow> (string \<Rightarrow> probe_env) \<Rightarrow> frames \<Rightarrow> js_error + device_entry list" where
  "discoverDevices getLocalAddress env frames =
     (case getLocalAddress of
        Inl err \<Rightarrow> Inr []
      | Inr localAddress \<Rightarrow>
          let runs = scan_of env localAddress
          in (case sort_key fst (listener_throws frames runs) of
                [] \<Rightarrow> Inr (collected env runs)
              | first # later \<Rightarrow> Inl (snd first)))"

section \<open>Invariants and notions used in the statements\<close>

text \<open>A decimal digit and a hexadecimal digit, by their character codes.\<close>

definition is_decimal_digit :: "char \<Rightarrow> bool" where
  "is_decimal_digit c = (48 \<le> (of_char c :: nat) \<and> (of_char c :: nat) \<le> 57)"

definition is_hex_digit :: "char \<Rightarrow> bool" where
  "is_hex_digit c =
     (is_decimal_digit c \<or>
      (97 \<le> (of_char c :: nat) \<and> (of_char c :: nat) \<le> 102) \<or>
      (65 \<le> (of_char c :: nat) \<and> (of_char c :: nat) \<le> 70))"

text \<open>
  A text that reads as a number, stated on its own so that it can be compared with what
  \<open>parseInt\<close> computes: after leading white space and an optional sign comes a decimal
  digit, or \<open>0x\<close> (or \<open>0X\<close>) followed by a hexadecimal digit. An identifier has a
  numeric channel suffix when the piece after its first \<open>':'\<close> is such a text.
\<close>

definition numeric_text :: "string \<Rightarrow> bool" where
  "numeric_text s =
     (let t = dropWhile is_space s;
          u = (case t of
                 [] \<Rightarrow> []
               | c # cs \<Rightarrow> if c = CHR ''-'' \<or> c = CHR ''+'' then cs else t)
      in case u of
           [] \<Rightarrow> False
         | [a] \<Rightarrow> is_decimal_digit a
         | a # b # cs \<Rightarrow>
             if a = CHR ''0'' \<and> (b = CHR ''x'' \<or> b = CHR ''X'')
             then (case cs of [] \<Rightarrow> False | c # others \<Rightarrow> is_hex_digit c)
             else is_decimal_digit a)"

definition numeric_suffix :: "string \<Rightarrow> bool" where
  "numeric_suffix devId =
     (case split_on CHR '':'' devId of
        c # seg # others \<Rightarrow> numeric_text seg
      | _ \<Rightarrow> False)"

text \<open>The ids that the requests of a run take, in order: what \<open>request_send\<close> returns
  in each event that makes a request.\<close>

fun ids_of :: "event \<Rightarrow> ShellyApi \<Rightarrow> nat list" where
  "ids_of (Request method params sr) a = [fst (request_send method params sr a)]"
| "ids_of (Ws_open sr) a =
     (if ws a = Some CONNECTING
      then [fst (request_send ''Shelly.GetStatus'' (JObj []) sr
                   (a\<lparr>ws := Some OPEN, isConnected := True\<rparr>))]
      else [])"
| "ids_of e a = []"

fun ids_taken :: "ShellyApi \<Rightarrow> event list \<Rightarrow> nat list" where
  "ids_taken a [] = []"
| "ids_taken a (e # es) =
     (case step e a of
        Inl stop \<Rightarrow> []
      | Inr a' \<Rightarrow> ids_of e a @ ids_taken a' es)"

text \<open>
  An invariant of the channel: the next id is at least 1, the ids of the logged messages
  are exactly the ids below it in increasing order, nothing is pending, settled or armed
  under an id that was not yet assigned, and a slot stored under an id belongs to the
  request with that id.
\<close>

definition fields_inv ::
    "nat \<Rightarrow> wire list \<Rightarrow> (nat \<rightharpoonup> resolver) \<Rightarrow> (nat \<rightharpoonup> outcome) \<Rightarrow> (nat \<rightharpoonup> nat) \<Rightarrow> bool" where
  "fields_inv next_id sends pending done armed =
     (1 \<le> next_id \<and>
      map w_id sends = [1..<next_id] \<and>
      (\<forall>k. k < 1 \<or> next_id \<le> k \<longrightarrow> pending k = None \<and> done k = None \<and> armed k = None) \<and>
      (\<forall>k p. pending k = Some (Resolver p) \<longrightarrow> p = k))"

definition channel_inv :: "ShellyApi \<Rightarrow> bool" where
  "channel_inv a =
     fields_inv (messageId a) (sendLog a) (pendingRequests a) (settled a) (timers a)"

text \<open>The calls of \<open>request\<close> in a trace.\<close>

fun is_call :: "action \<Rightarrow> bool" where
  "is_call (RequestCall n) = True"
| "is_call (Backoff d) = False"

text \<open>The message \<open>getStatus()\<close> sends from a given state.\<close>

definition status_query :: "ShellyApi \<Rightarrow> wire" where
  "status_query a =
     \<lparr>w_id = messageId a,
      w_src = (case deviceId a of None \<Rightarrow> ''homey_default''
               | Some d \<Rightarrow> if d = [] then ''homey_default'' else d),
      w_method = ''Shelly.GetStatus'', w_params = JObj []\<rparr>"

text \<open>The error kind as the contract of \<open>connect\<close> words it, stated on its own so that
  it can be compared with what \<open>handleError\<close> computes: NOT_SHELLY_DEVICE for a reply
  that is not the expected upgrade, else the transport's code when there is one, else
  CONNECTION_FAILED.\<close>

definition error_kind :: "js_error \<Rightarrow> string" where
  "error_kind err =
     (if str_includes (err_message err) ''404'' \<or>
         str_includes (err_message err) ''Unexpected server response''
      then ''NOT_SHELLY_DEVICE''
      else (case err_code err of
              None \<Rightarrow> ''CONNECTION_FAILED''
            | Some c \<Rightarrow> if c = [] then ''CONNECTION_FAILED'' else c))"

text \<open>The index pair under which the loop of \<open>handleNotification\<close> files the value of
  a key.\<close>

definition key_pair :: "string \<Rightarrow> string \<times> string" where
  "key_pair k =
     (case split_on CHR '':'' k of
        [] \<Rightarrow> ([], ''undefined'')
      | component # rest \<Rightarrow>
          (component, case rest of [] \<Rightarrow> ''undefined'' | i # others \<Rightarrow> i))"


text \<open>A key whose value the loop files in the structure: its component is no property
  of \<open>Object.prototype\<close> and its index is not \<open>__proto__\<close>.\<close>

definition filed :: "string \<Rightarrow> bool" where
  "filed k =
     (fst (key_pair k) \<notin> set object_prototype_names \<and> snd (key_pair k) \<noteq> ''__proto__'')"


definition upd2 :: "string \<times> string \<Rightarrow> json \<Rightarrow> updates \<Rightarrow> updates" where
  "upd2 ci v u =
     AList.update (fst ci)
       (AList.update (snd ci) v (case map_of u (fst ci) of None \<Rightarrow> [] | Some m \<Rightarrow> m)) u"

text \<open>What one round of the loop does to the structure when the key is filed.\<close>

definition file_entry :: "string \<times> json \<Rightarrow> updates \<Rightarrow> updates" where
  "file_entry kv u = (if fst kv = ''ts'' then u else upd2 (key_pair (fst kv)) (snd kv) u)"

text \<open>The rounds of a scan follow each other: a round starts when the one before was
  joined and the delay has passed, its batch is within the batch size, each of its probes
  settles between its start and its join, and the join comes at most
  \<open>CONNECTION_TIMEOUT\<close> after the start.\<close>

fun chained :: "nat \<Rightarrow> batch_run list \<Rightarrow> bool" where
  "chained t [] = True"
| "chained t (r # rs) =
     (b_start r = t \<and> length (b_ips r) \<le> SCAN_BATCH_SIZE \<and>
      length (b_settled r) = length (b_ips r) \<and>
      (\<forall>s\<in>set (b_settled r). t \<le> s \<and> s \<le> b_joined r) \<and>
      t \<le> b_joined r \<and> b_joined r \<le> t + CONNECTION_TIMEOUT \<and>
      chained (b_joined r + BATCH_DELAY) rs)"

section \<open>Concrete inputs\<close>

definition accept_all :: host where
  "accept_all = (\<lambda>capability v. Accepted)"

text \<open>A channel after \<open>connect()\<close> succeeded, its status query was answered and a
  session registered its handler.\<close>

definition open_api :: "string \<Rightarrow> ShellyApi" where
  "open_api devId =
     setNotificationHandler (Some bound_handler)
       (snd (snd (connect (Opens SendOk (RespondsResult (JObj [])))
                    (ShellyApi_new ''192.168.1.50'' (Some devId)))))"

definition nan_session :: session where
  "nan_session =
     \<lparr>dataId = ''shelly1'', capabilityValues = [''onoff'' \<mapsto> JBool False],
      channelNumber = Some NaN, api = Some (open_api ''shelly1'')\<rparr>"

text \<open>A switch session whose identifier has a piece after \<open>':'\<close> that does not start
  with a digit, as \<open>initializeCapabilities\<close> leaves it when the status query times out.\<close>

definition x1_session :: session where
  "x1_session =
     \<lparr>dataId = ''shelly1_switch:x1'', capabilityValues = [''onoff'' \<mapsto> JBool False],
      channelNumber = Some NaN, api = Some (open_api ''shelly1_switch:x1'')\<rparr>"

definition inherited_nan_note :: notification where
  "inherited_nan_note =
     (envelope None [(''switch'', [(''0'', JObj [(''output'', JBool False)])])])
       \<lparr>inherited := [(''NaN'', JObj [(''output'', JBool True)])]\<rparr>"

definition nan_note :: notification where
  "nan_note = envelope None [(''switch'', [(''NaN'', JObj [(''output'', JBool True)])])]"

definition switch0_note :: notification where
  "switch0_note = envelope None [(''switch'', [(''0'', JObj [(''output'', JBool True)])])]"

definition cover1_session :: session where
  "cover1_session =
     \<lparr>dataId = ''shellyprodual_cover:1'',
      capabilityValues = [''windowcoverings_state'' \<mapsto> JStr ''idle'',
                          ''windowcoverings_set'' \<mapsto> JNum 0],
      channelNumber = None,
      api = Some (open_api ''shellyprodual_cover:1'')\<rparr>"

definition opening_42 :: notification where
  "opening_42 = envelope (Some (JNum 1700000000))
     [(''cover'', [(''0'', JObj [(''state'', JStr ''opening''), (''current_pos'', JNum 42)])])]"

definition env_send_timeout :: "nat \<Rightarrow> attempt_env" where
  "env_send_timeout n =
     \<lparr>transport = Fails (Error ''connect ECONNREFUSED'' (Some ''ECONNREFUSED'')),
      sendResult = SendThrows (Error ''write ETIMEDOUT'' (Some ''ETIMEDOUT'')),
      exchange = NoResponse\<rparr>"

definition env_no_response :: "nat \<Rightarrow> attempt_env" where
  "env_no_response n =
     \<lparr>transport = Fails (Error ''connect ECONNREFUSED'' (Some ''ECONNREFUSED'')),
      sendResult = SendOk,
      exchange = NoResponse\<rparr>"

definition ev_three :: "event list" where
  "ev_three = [Connect, Ws_open SendOk, Request ''Switch.Set'' (JObj [(''id'', JNum 0), (''on'', JBool True)]) SendOk]"

definition stale_response :: json where
  "stale_response = JObj [(''id'', JNum 7), (''result'', JObj [])]"



definition proto_note :: json where
  "proto_note =
     JObj [(''method'', JStr ''NotifyStatus''),
           (''params'', JObj [(''ts'', JNum 1700000000),
                              (''__proto__:NaN'', JObj [(''output'', JBool True)])])]"





definition quiet_env :: "string \<Rightarrow> probe_env" where
  "quiet_env addr =
     \<lparr>q_duration = 9000,
      q_result = InfoRejected (Error ''Device discovery: connection failed'' (Some ''ETIMEDOUT''))\<rparr>"

definition info_2pm :: json where
  "info_2pm = JObj [(''id'', JStr ''shellyplus2pm-a8032ab1fe78''), (''app'', JStr ''Plus2PM''),
                    (''profile'', JStr ''switch'')]"

definition status_2pm :: json where
  "status_2pm = JObj [(''switch:0'', JObj [(''output'', JBool False)])]"

definition slow_env :: "string \<Rightarrow> probe_env" where
  "slow_env addr =
     (if addr = ''192.168.1.1''
      then \<lparr>q_duration = 1600, q_result = Answered (Some info_2pm) (Some status_2pm)\<rparr>
      else quiet_env addr)"

definition near_env :: "string \<Rightarrow> probe_env" where
  "near_env addr =
     (if addr = ''192.168.1.1''
      then \<lparr>q_duration = 300, q_result = Answered (Some info_2pm) (Some status_2pm)\<rparr>
      else quiet_env addr)"

text \<open>The device at \<open>.1\<close> accepts the connection and sends text that is not JSON after
  40 ms; its calls are never answered, so the status query of \<open>connect\<close> and then
  \<open>getDeviceInfo\<close> time out.\<close>

definition garbled_env :: "string \<Rightarrow> probe_env" where
  "garbled_env addr =
     (if addr = ''192.168.1.1''
      then \<lparr>q_duration = 10010, q_result = InfoRejected (Error ''REQUEST_TIMEOUT'' None)\<rparr>
      else quiet_env addr)"

definition no_frames :: frames where
  "no_frames = (\<lambda>addr. None)"

definition garbled_frames :: frames where
  "garbled_frames =
     (\<lambda>addr. if addr = ''192.168.1.1''
             then Some (40, SyntaxError ''Unexpected token < in JSON at position 0'')
             else None)"

definition plus2pm_entry :: device_entry where
  "plus2pm_entry = createDeviceEntry ''switch'' (Num 0) info_2pm ''192.168.1.1''"

section \<open>Device sessions: properties\<close>

subsection \<open>Cover notifications\<close>

lemma setCapabilityValueSafe_other:
  "capability \<noteq> c \<Longrightarrow>
   capabilityValues (setCapabilityValueSafe h capability v s) c = capabilityValues s c"
  by (simp add: setCapabilityValueSafe_def setCapabilityValue_def
      split: sink_result.splits option.splits)

lemma setCapabilityValueSafe_accepted:
  "h capability v = Accepted \<Longrightarrow>
   capabilityValues (setCapabilityValueSafe h capability v s) capability = Some v"
  by (simp add: setCapabilityValueSafe_def setCapabilityValue_def)

lemma numberField_other:
  "capability \<noteq> c \<Longrightarrow>
   capabilityValues (numberField h x capability conv s) c = capabilityValues s c"
  by (simp add: numberField_def setCapabilityValueSafe_other split: option.splits json.splits)

lemma get_prop_own: "get_prop [] (JObj flds) k = map_of flds k"
  by (simp add: get_prop_def split: option.splits)

lemma coverData_own:
  "inherited data = [] \<Longrightarrow>
   CoverDevice_coverData data = lookup2 (updates data) ''cover'' ''0''"
  by (simp add: CoverDevice_coverData_def updates_prop_def lookup2_def get_prop_own
      split: option.splits)

lemma cover_channel0_applies:
  assumes "lookup2 (updates data) ''cover'' ''0'' = Some (JObj flds)"
    and "map_of flds ''state'' = Some (JStr ''opening'')"
    and "map_of flds ''current_pos'' = Some (JNum 42)"
    and "h ''windowcoverings_state'' (JStr ''up'') = Accepted"
    and "h ''windowcoverings_set'' (JNum 0.42) = Accepted"
    and "event data = None"
    and "inherited data = []"
  shows "capabilityValues (CoverDevice_handleNotification h data s) ''windowcoverings_state''
           = Some (JStr ''up'') \<and>
         capabilityValues (CoverDevice_handleNotification h data s) ''windowcoverings_set''
           = Some (JNum 0.42)"
proof -
  define s1 where "s1 = setCapabilityValueSafe h ''windowcoverings_state'' (JStr ''up'') s"
  define s2 where "s2 = setCapabilityValueSafe h ''windowcoverings_set'' (JNum 0.42) s1"
  define s3 where "s3 = numberField h (map_of flds ''apower'') ''measure_power'' (\<lambda>p. p) s2"
  define s4 where "s4 = numberField h (map_of flds ''current'') ''measure_current'' (\<lambda>p. p) s3"
  have pos: "numberField h (map_of flds ''current_pos'') ''windowcoverings_set'' (\<lambda>p. p / 100) s1
               = s2"
    using assms(3) by (simp add: numberField_def s2_def)
  have cd: "CoverDevice_coverData data = Some (JObj flds)"
    using assms(1,7) by (simp add: coverData_own)
  have r: "CoverDevice_handleNotification h data s = s4"
    using assms(2,6,7) pos
    by (simp add: CoverDevice_handleNotification_def CoverDevice_updates_def cd get_prop_own
        CoverDevice_event_def event_prop_def Let_def s1_def [symmetric] s3_def [symmetric]
        s4_def [symmetric])
  have st1: "capabilityValues s1 ''windowcoverings_state'' = Some (JStr ''up'')"
    unfolding s1_def using assms(4) by (rule setCapabilityValueSafe_accepted)
  have st2: "capabilityValues s2 ''windowcoverings_state'' = Some (JStr ''up'')"
    unfolding s2_def using st1 by (simp add: setCapabilityValueSafe_other)
  have po2: "capabilityValues s2 ''windowcoverings_set'' = Some (JNum 0.42)"
    unfolding s2_def using assms(5) by (rule setCapabilityValueSafe_accepted)
  have st4: "capabilityValues s4 ''windowcoverings_state'' = Some (JStr ''up'')"
    unfolding s4_def s3_def using st2 by (simp add: numberField_other)
  have po4: "capabilityValues s4 ''windowcoverings_set'' = Some (JNum 0.42)"
    unfolding s4_def s3_def using po2 by (simp add: numberField_other)
  show ?thesis using r st4 po4 by simp
qed

text \<open>
  C1. A cover session whose identifier names channel 1 receives the notification
  \<open>{cover: {"0": {state: "opening", current_pos: 42}}}\<close>: the handler reads the
  fixed key \<open>"0"\<close> and never the session's identifier, so this session's motion state goes
  from \<open>"idle"\<close> to \<open>"up"\<close> and its position from 0 to 0.42.
\<close>

theorem cover_other_channel_reacts:
  "capabilityValues cover1_session ''windowcoverings_state'' = Some (JStr ''idle'') \<and>
   capabilityValues cover1_session ''windowcoverings_set'' = Some (JNum 0) \<and>
   capabilityValues (CoverDevice_handleNotification accept_all opening_42 cover1_session)
     ''windowcoverings_state'' = Some (JStr ''up'') \<and>
   capabilityValues (CoverDevice_handleNotification accept_all opening_42 cover1_session)
     ''windowcoverings_set'' = Some (JNum 0.42)"
proof -
  have k: "lookup2 (updates opening_42) ''cover'' ''0''
             = Some (JObj [(''state'', JStr ''opening''), (''current_pos'', JNum 42)])"
    by (simp add: opening_42_def envelope_def lookup2_def)
  have e: "event opening_42 = None"
    by (simp add: opening_42_def envelope_def)
  have p: "inherited opening_42 = []"
    by (simp add: opening_42_def envelope_def)
  have a: "capabilityValues (CoverDevice_handleNotification accept_all opening_42 cover1_session)
             ''windowcoverings_state'' = Some (JStr ''up'') \<and>
           capabilityValues (CoverDevice_handleNotification accept_all opening_42 cover1_session)
             ''windowcoverings_set'' = Some (JNum 0.42)"
    by (rule cover_channel0_applies [OF k _ _ _ _ e p]) (simp_all add: accept_all_def)
  have b: "capabilityValues cover1_session ''windowcoverings_state'' = Some (JStr ''idle'')"
    by (simp add: cover1_session_def)
  have c: "capabilityValues cover1_session ''windowcoverings_set'' = Some (JNum 0)"
    by (simp add: cover1_session_def)
  show ?thesis using a b c by blast
qed

subsection \<open>Teardown\<close>

lemma destroy_raises_with_api:
  "api s = Some a \<Longrightarrow>
   destroy s = Inl (TypeError ''this.api.removeNotificationHandler is not a function'')"
  by (simp add: destroy_def call_api_def ShellyApi_member_def)

text \<open>
  C2. Teardown of a session that owns a channel: \<open>destroy\<close> calls
  \<open>this.api.removeNotificationHandler\<close>, which class ShellyApi does not define, so the
  call raises TypeError before \<open>disconnect\<close> is reached, the first time and every time.
\<close>

theorem destroy_raises:
  "destroy (session_new ''shelly1_switch:0'' (open_api ''shelly1_switch:0''))
     = Inl (TypeError ''this.api.removeNotificationHandler is not a function'')"
  by (rule destroy_raises_with_api) (simp add: session_new_def)

subsection \<open>A switch session without a channel number\<close>

lemma digit_of_10: "digit_of 10 c = None \<longleftrightarrow> \<not> is_decimal_digit c"
  by (auto simp: digit_of_def is_decimal_digit_def Let_def)

lemma digit_of_16: "digit_of 16 c = None \<longleftrightarrow> \<not> is_hex_digit c"
  by (auto simp: digit_of_def is_hex_digit_def is_decimal_digit_def Let_def)

lemma read_digits_NaN:
  "read_digits neg radix s = NaN \<longleftrightarrow> (case s of [] \<Rightarrow> True | c # cs \<Rightarrow> digit_of radix c = None)"
  by (simp add: read_digits_def split: list.splits)

lemma strip_sign_snd:
  "snd (strip_sign t) =
     (case t of [] \<Rightarrow> [] | c # cs \<Rightarrow> if c = CHR ''-'' \<or> c = CHR ''+'' then cs else t)"
  by (simp add: strip_sign_def split: list.splits)

lemma strip_radix_digit:
  "(case strip_radix u of
      (radix, s3) \<Rightarrow> (case s3 of [] \<Rightarrow> False | c # cs \<Rightarrow> digit_of radix c \<noteq> None)) =
   (case u of
      [] \<Rightarrow> False
    | [a] \<Rightarrow> is_decimal_digit a
    | a # b # cs \<Rightarrow>
        if a = CHR ''0'' \<and> (b = CHR ''x'' \<or> b = CHR ''X'')
        then (case cs of [] \<Rightarrow> False | c # others \<Rightarrow> is_hex_digit c)
        else is_decimal_digit a)"
proof (cases u)
  case Nil
  then show ?thesis by (simp add: strip_radix_def)
next
  case (Cons a r)
  show ?thesis
  proof (cases r)
    case Nil
    then show ?thesis using Cons by (simp add: strip_radix_def digit_of_10)
  next
    case (Cons b cs)
    show ?thesis
    proof (cases "a = CHR ''0'' \<and> (b = CHR ''x'' \<or> b = CHR ''X'')")
      case True
      then have "strip_radix u = (16, cs)"
        using \<open>u = a # r\<close> Cons by (simp add: strip_radix_def)
      then show ?thesis
        using True \<open>u = a # r\<close> Cons by (cases cs) (simp_all add: digit_of_16)
    next
      case False
      then have "strip_radix u = (10, u)"
        using \<open>u = a # r\<close> Cons by (simp add: strip_radix_def)
      then show ?thesis
        using False \<open>u = a # r\<close> Cons by (auto simp: digit_of_10)
    qed
  qed
qed

lemma numeric_text_iff:
  "numeric_text s \<longleftrightarrow>
     (case strip_radix (snd (strip_sign (dropWhile is_space s))) of
        (radix, s3) \<Rightarrow> (case s3 of [] \<Rightarrow> False | c # cs \<Rightarrow> digit_of radix c \<noteq> None))"
  unfolding strip_radix_digit strip_sign_snd numeric_text_def Let_def ..

lemma parseInt_NaN: "parseInt (Some seg) = NaN \<longleftrightarrow> \<not> numeric_text seg"
proof -
  obtain neg s2 where ss: "strip_sign (dropWhile is_space seg) = (neg, s2)"
    by (cases "strip_sign (dropWhile is_space seg)")
  obtain radix s3 where sr: "strip_radix s2 = (radix, s3)"
    by (cases "strip_radix s2")
  have p: "parseInt (Some seg) = read_digits neg radix s3"
    by (simp add: parseInt_def ss sr)
  have n: "numeric_text seg \<longleftrightarrow> (case s3 of [] \<Rightarrow> False | c # cs \<Rightarrow> digit_of radix c \<noteq> None)"
    by (simp add: numeric_text_iff ss sr split: list.splits)
  show ?thesis
    unfolding p n read_digits_NaN by (cases s3) simp_all
qed

lemma parseInt_undefined: "parseInt None = NaN"
  by (simp add: parseInt_def is_space_def strip_sign_def strip_radix_def read_digits_def
      digit_of_def)

lemma parse_channel_NaN: "parse_channel devId = NaN \<longleftrightarrow> \<not> numeric_suffix devId"
  by (simp add: parse_channel_def numeric_suffix_def nth_opt_def parseInt_undefined parseInt_NaN
      split: list.splits)

lemma init_channel:
  "SwitchDevice_initializeCapabilities h proto status s0 = Inr s \<Longrightarrow>
   channelNumber s = Some (parse_channel (dataId s0))"
  by (auto simp: SwitchDevice_initializeCapabilities_def setCapabilityValue_def
      setCapabilityValue_caught_def Let_def
      split: sum.splits sink_result.splits option.splits json.splits if_splits)

lemma nan_ignores:
  "channelNumber s = Some NaN \<Longrightarrow> \<not> truthy_opt (SwitchDevice_switchState data ''NaN'') \<Longrightarrow>
   SwitchDevice_handleNotification h data s = s"
  by (simp add: SwitchDevice_handleNotification_def property_key_def truthy_opt_def
      split: option.splits)

lemma nan_ignores_all:
  "channelNumber s = Some NaN \<Longrightarrow>
   \<forall>d\<in>set ds. \<not> truthy_opt (SwitchDevice_switchState d ''NaN'') \<Longrightarrow>
   foldl (\<lambda>st d. SwitchDevice_handleNotification h d st) s ds = s"
  by (induction ds) (simp_all add: nan_ignores)

lemma switchState_own:
  "inherited d = [] \<Longrightarrow> SwitchDevice_switchState d key = lookup2 (updates d) ''switch'' key"
  by (simp add: SwitchDevice_switchState_def updates_prop_def lookup2_def get_prop_own
      split: option.splits)

text \<open>
  C10 (as amended). The channel number read from an identifier is NaN exactly when the
  identifier has no numeric channel suffix. For a session with such an identifier the
  channel number assigned by \<open>initializeCapabilities\<close> is NaN, and from then on every
  notification in which \<open>data.updates.switch\<close> has no truthy property under the key
  \<open>"NaN"\<close>, neither its own nor one inherited from \<open>Object.prototype\<close>, returns the
  session as it was: capability values, channel number and channel. While
  \<open>Object.prototype\<close> has no further property, these are the notifications whose switch
  updates have no entry under \<open>"NaN"\<close>, such as one for channel 0 only.
\<close>

theorem switch_nan_channel:
  assumes "\<not> numeric_suffix (dataId s0)"
    and "SwitchDevice_initializeCapabilities h0 proto status s0 = Inr s"
    and "\<forall>d\<in>set ds. \<not> truthy_opt (SwitchDevice_switchState d ''NaN'')"
  shows "(\<forall>devId. parse_channel devId = NaN \<longleftrightarrow> \<not> numeric_suffix devId) \<and>
         channelNumber s = Some NaN \<and>
         foldl (\<lambda>st d. SwitchDevice_handleNotification h d st) s ds = s \<and>
         (\<forall>d. inherited d = [] \<and> lookup2 (updates d) ''switch'' ''NaN'' = None
               \<longrightarrow> SwitchDevice_switchState d ''NaN'' = None)"
proof -
  have "channelNumber s = Some NaN"
    using init_channel [OF assms(2)] assms(1) by (simp add: parse_channel_NaN)
  then show ?thesis
    using nan_ignores_all assms(3) parse_channel_NaN switchState_own by auto
qed

lemma init_x1:
  "SwitchDevice_initializeCapabilities accept_all [] (Inl (Error ''REQUEST_TIMEOUT'' None))
     (session_new ''shelly1_switch:x1'' (open_api ''shelly1_switch:x1'')) = Inr x1_session"
  by (simp add: SwitchDevice_initializeCapabilities_def setCapabilityValue_def accept_all_def
      session_new_def x1_session_def parse_channel_def parseInt_def nth_opt_def digit_of_def
      is_space_def strip_sign_def strip_radix_def read_digits_def)

theorem switch_nan_channel_witness:
  "\<not> numeric_suffix ''shelly1_switch:x1'' \<and>
   SwitchDevice_initializeCapabilities accept_all [] (Inl (Error ''REQUEST_TIMEOUT'' None))
     (session_new ''shelly1_switch:x1'' (open_api ''shelly1_switch:x1'')) = Inr x1_session \<and>
   channelNumber x1_session = Some NaN \<and>
   capabilityValues x1_session ''onoff'' = Some (JBool False) \<and>
   lookup2 (updates switch0_note) ''switch'' ''0'' = Some (JObj [(''output'', JBool True)]) \<and>
   SwitchDevice_switchState switch0_note ''NaN'' = None \<and>
   foldl (\<lambda>st d. SwitchDevice_handleNotification accept_all d st) x1_session [switch0_note]
     = x1_session"
proof -
  have n: "\<not> numeric_suffix ''shelly1_switch:x1''"
    by (simp add: numeric_suffix_def numeric_text_def is_space_def is_decimal_digit_def)
  have h1: "\<not> numeric_suffix (dataId (session_new ''shelly1_switch:x1'' (open_api ''shelly1_switch:x1'')))"
    using n by (simp add: session_new_def)
  have h3: "\<forall>d\<in>set [switch0_note]. \<not> truthy_opt (SwitchDevice_switchState d ''NaN'')"
    by (simp add: switch0_note_def envelope_def SwitchDevice_switchState_def updates_prop_def
        get_prop_def truthy_opt_def)
  have c: "capabilityValues x1_session ''onoff'' = Some (JBool False)"
    by (simp add: x1_session_def)
  have k: "lookup2 (updates switch0_note) ''switch'' ''0'' = Some (JObj [(''output'', JBool True)])"
    by (simp add: switch0_note_def envelope_def lookup2_def)
  note T = switch_nan_channel [OF h1 init_x1 h3, of accept_all]
  have o: "inherited switch0_note = [] \<and> lookup2 (updates switch0_note) ''switch'' ''NaN'' = None"
    by (simp add: switch0_note_def envelope_def lookup2_def)
  have z: "SwitchDevice_switchState switch0_note ''NaN'' = None"
    using T o by blast
  have ch: "channelNumber x1_session = Some NaN" using T by blast
  have fo: "foldl (\<lambda>st d. SwitchDevice_handleNotification accept_all d st) x1_session [switch0_note]
     = x1_session" using T by blast
  show ?thesis
    by (intro conjI) (rule n init_x1 ch c k z fo)+
qed

text \<open>
  The claim as first stated fails: the property key of NaN is the text \<open>"NaN"\<close>. A
  notification carrying \<open>"switch:NaN"\<close> is reshaped into an entry under that key, which
  the session applies. And once \<open>Object.prototype\<close> has a property \<open>"NaN"\<close> (the
  parameter \<open>"__proto__:NaN"\<close> of an earlier notification sets one, where the loop of
  \<open>handleNotification\<close> escapes), the entry for channel 0 inherits it, and a notification
  for channel 0 only is applied as well.
\<close>

theorem switch_nan_key_counterexample:
  "SwitchDevice_initializeCapabilities accept_all [] (Inl (Error ''REQUEST_TIMEOUT'' None))
     (session_new ''shelly1'' (open_api ''shelly1'')) = Inr nan_session \<and>
   CHR '':'' \<notin> set (dataId nan_session) \<and>
   parse_channel (dataId nan_session) = NaN \<and>
   channelNumber nan_session = Some NaN \<and>
   capabilityValues nan_session ''onoff'' = Some (JBool False) \<and>
   capabilityValues (SwitchDevice_handleNotification accept_all nan_note nan_session) ''onoff''
     = Some (JBool True) \<and>
   handleMessage proto_note (open_api ''shelly1'')
     = Inl (Escapes ''__proto__'' ''NaN'' (JObj [(''output'', JBool True)])) \<and>
   inherited inherited_nan_note = [(''NaN'', JObj [(''output'', JBool True)])] \<and>
   updates inherited_nan_note = [(''switch'', [(''0'', JObj [(''output'', JBool False)])])] \<and>
   capabilityValues (SwitchDevice_handleNotification accept_all inherited_nan_note nan_session)
     ''onoff'' = Some (JBool True)"
proof -
  have i: "SwitchDevice_initializeCapabilities accept_all [] (Inl (Error ''REQUEST_TIMEOUT'' None))
     (session_new ''shelly1'' (open_api ''shelly1'')) = Inr nan_session"
    by (simp add: SwitchDevice_initializeCapabilities_def setCapabilityValue_def accept_all_def
      session_new_def nan_session_def parse_channel_def parseInt_def nth_opt_def digit_of_def
      is_space_def strip_sign_def strip_radix_def read_digits_def)
  have a: "CHR '':'' \<notin> set (dataId nan_session)"
    by (simp add: nan_session_def)
  have b: "parse_channel (dataId nan_session) = NaN"
    by (simp add: nan_session_def parse_channel_def parseInt_def nth_opt_def digit_of_def
        is_space_def strip_sign_def strip_radix_def read_digits_def)
  have c: "channelNumber nan_session = Some NaN"
    by (simp add: nan_session_def)
  have d: "capabilityValues nan_session ''onoff'' = Some (JBool False)"
    by (simp add: nan_session_def)
  have k: "SwitchDevice_switchState nan_note (property_key (channelNumber nan_session))
             = Some (JObj [(''output'', JBool True)])"
    by (simp add: c property_key_def nan_note_def envelope_def SwitchDevice_switchState_def
        updates_prop_def get_prop_def)
  have e: "capabilityValues (SwitchDevice_handleNotification accept_all nan_note nan_session) ''onoff''
     = Some (JBool True)"
    unfolding SwitchDevice_handleNotification_def k
    by (simp add: numberField_def setCapabilityValueSafe_def setCapabilityValue_def
        accept_all_def get_prop_def nan_note_def envelope_def Let_def)
  have u: "updates inherited_nan_note = [(''switch'', [(''0'', JObj [(''output'', JBool False)])])]"
    by (simp add: inherited_nan_note_def envelope_def)
  have v: "inherited inherited_nan_note = [(''NaN'', JObj [(''output'', JBool True)])]"
    by (simp add: inherited_nan_note_def envelope_def)
  have "reshape (JObj [(''ts'', JNum 1700000000),
                       (''__proto__:NaN'', JObj [(''output'', JBool True)])])
          = Inl (Escapes ''__proto__'' ''NaN'' (JObj [(''output'', JBool True)]))"
    by (simp add: reshape_def reshape_entry_def object_prototype_names_def)
  then have w: "handleMessage proto_note (open_api ''shelly1'')
     = Inl (Escapes ''__proto__'' ''NaN'' (JObj [(''output'', JBool True)]))"
    by (simp add: handleMessage_def is_notification_def handleNotification_def proto_note_def
        deliver_def)
  have k2: "SwitchDevice_switchState inherited_nan_note (property_key (channelNumber nan_session))
             = Some (JObj [(''output'', JBool True)])"
    by (simp add: c property_key_def inherited_nan_note_def envelope_def
        SwitchDevice_switchState_def updates_prop_def get_prop_def)
  have f: "capabilityValues (SwitchDevice_handleNotification accept_all inherited_nan_note nan_session)
     ''onoff'' = Some (JBool True)"
    unfolding SwitchDevice_handleNotification_def k2
    by (simp add: numberField_def setCapabilityValueSafe_def setCapabilityValue_def
        accept_all_def get_prop_def inherited_nan_note_def envelope_def Let_def)
  show ?thesis
    by (intro conjI) (rule i a b c d e w v u f)+
qed

section \<open>The RPC channel: properties\<close>

lemma settle_frame [simp]:
  "messageId (settle p out a) = messageId a"
  "sendLog (settle p out a) = sendLog a"
  "pendingRequests (settle p out a) = pendingRequests a"
  "timers (settle p out a) = timers a"
  "ws (settle p out a) = ws a"
  "isConnected (settle p out a) = isConnected a"
  "clock (settle p out a) = clock a"
  "delivered (settle p out a) = delivered a"
  "deviceId (settle p out a) = deviceId a"
  "notificationHandler (settle p out a) = notificationHandler a"
  by (simp_all add: settle_def split: option.splits)

lemma settled_settle:
  "settled (settle p out a) k = (if k = p \<and> settled a p = None then Some out else settled a k)"
  by (simp add: settle_def split: option.splits)

lemma clearTimeout_frame [simp]:
  "messageId (clearTimeout p a) = messageId a"
  "sendLog (clearTimeout p a) = sendLog a"
  "pendingRequests (clearTimeout p a) = pendingRequests a"
  "settled (clearTimeout p a) = settled a"
  "timers (clearTimeout p a) = (timers a)(p := None)"
  "ws (clearTimeout p a) = ws a"
  "isConnected (clearTimeout p a) = isConnected a"
  "clock (clearTimeout p a) = clock a"
  "delivered (clearTimeout p a) = delivered a"
  "deviceId (clearTimeout p a) = deviceId a"
  "notificationHandler (clearTimeout p a) = notificationHandler a"
  by (simp_all add: clearTimeout_def)

lemma requestTimeout_frame [simp]:
  "messageId (requestTimeout p a) = messageId a"
  "sendLog (requestTimeout p a) = sendLog a"
  "pendingRequests (requestTimeout p a) = (pendingRequests a)(p := None)"
  "timers (requestTimeout p a) = (timers a)(p := None)"
  "ws (requestTimeout p a) = ws a"
  "isConnected (requestTimeout p a) = isConnected a"
  "clock (requestTimeout p a) = clock a"
  "delivered (requestTimeout p a) = delivered a"
  "deviceId (requestTimeout p a) = deviceId a"
  "notificationHandler (requestTimeout p a) = notificationHandler a"
  by (simp_all add: requestTimeout_def)

lemma settled_requestTimeout:
  "settled (requestTimeout p a) k =
     (if k = p \<and> settled a p = None then Some (Rejected (Error ''REQUEST_TIMEOUT'' None))
      else settled a k)"
  by (simp add: requestTimeout_def settled_settle)

lemma fire_due_frame [simp]:
  "messageId (fire_due j a) = messageId a"
  "sendLog (fire_due j a) = sendLog a"
  "ws (fire_due j a) = ws a"
  "isConnected (fire_due j a) = isConnected a"
  "clock (fire_due j a) = clock a"
  "delivered (fire_due j a) = delivered a"
  "deviceId (fire_due j a) = deviceId a"
  "notificationHandler (fire_due j a) = notificationHandler a"
  by (simp_all add: fire_due_def split: option.splits)

lemma fire_due_other:
  "k \<noteq> j \<Longrightarrow> pendingRequests (fire_due j a) k = pendingRequests a k"
  "k \<noteq> j \<Longrightarrow> timers (fire_due j a) k = timers a k"
  "k \<noteq> j \<Longrightarrow> settled (fire_due j a) k = settled a k"
  by (simp_all add: fire_due_def settled_requestTimeout split: option.splits)

lemma fire_due_none:
  "pendingRequests a k = None \<Longrightarrow> pendingRequests (fire_due j a) k = None"
  "timers a k = None \<Longrightarrow> timers (fire_due j a) k = None"
  "timers a k = None \<Longrightarrow> settled (fire_due j a) k = settled a k"
  by (auto simp: fire_due_def settled_requestTimeout split: option.splits)

lemma fold_fire_due_frame [simp]:
  "messageId (fold fire_due ks a) = messageId a"
  "sendLog (fold fire_due ks a) = sendLog a"
  "ws (fold fire_due ks a) = ws a"
  "isConnected (fold fire_due ks a) = isConnected a"
  "clock (fold fire_due ks a) = clock a"
  "delivered (fold fire_due ks a) = delivered a"
  "deviceId (fold fire_due ks a) = deviceId a"
  "notificationHandler (fold fire_due ks a) = notificationHandler a"
  by (induction ks arbitrary: a; simp)+

lemma fold_fire_due_none:
  "pendingRequests a k = None \<Longrightarrow> pendingRequests (fold fire_due ks a) k = None"
  "timers a k = None \<Longrightarrow> timers (fold fire_due ks a) k = None"
  "timers a k = None \<Longrightarrow> settled (fold fire_due ks a) k = settled a k"
  by (induction ks arbitrary: a; simp add: fire_due_none)+

lemma fold_fire_due_notin:
  "k \<notin> set ks \<Longrightarrow> pendingRequests (fold fire_due ks a) k = pendingRequests a k"
  "k \<notin> set ks \<Longrightarrow> timers (fold fire_due ks a) k = timers a k"
  "k \<notin> set ks \<Longrightarrow> settled (fold fire_due ks a) k = settled a k"
  by (induction ks arbitrary: a; simp add: fire_due_other)+

lemma elapse_frame [simp]:
  "messageId (elapse d a) = messageId a"
  "sendLog (elapse d a) = sendLog a"
  "ws (elapse d a) = ws a"
  "isConnected (elapse d a) = isConnected a"
  "clock (elapse d a) = clock a + d"
  "delivered (elapse d a) = delivered a"
  "deviceId (elapse d a) = deviceId a"
  "notificationHandler (elapse d a) = notificationHandler a"
  by (simp_all add: elapse_def)

lemma elapse_none:
  "pendingRequests a k = None \<Longrightarrow> pendingRequests (elapse d a) k = None"
  "timers a k = None \<Longrightarrow> timers (elapse d a) k = None"
  "timers a k = None \<Longrightarrow> settled (elapse d a) k = settled a k"
  by (simp_all add: elapse_def fold_fire_due_none)

lemma fire_due_slot:
  "pendingRequests (fire_due j a) k = Some r \<Longrightarrow> pendingRequests a k = Some r"
  by (auto simp: fire_due_def split: option.splits if_splits)

lemma fold_fire_due_slot:
  "pendingRequests (fold fire_due ks a) k = Some r \<Longrightarrow> pendingRequests a k = Some r"
  by (induction ks arbitrary: a) (auto dest: fire_due_slot)

lemma elapse_slot:
  "pendingRequests (elapse d a) k = Some r \<Longrightarrow> pendingRequests a k = Some r"
  by (auto simp: elapse_def dest: fold_fire_due_slot)

lemma channel_invI:
  assumes "1 \<le> messageId a"
    and "map w_id (sendLog a) = [1..<messageId a]"
    and "\<And>k. k < 1 \<or> messageId a \<le> k \<Longrightarrow> pendingRequests a k = None"
    and "\<And>k. k < 1 \<or> messageId a \<le> k \<Longrightarrow> settled a k = None"
    and "\<And>k. k < 1 \<or> messageId a \<le> k \<Longrightarrow> timers a k = None"
    and "\<And>k p. pendingRequests a k = Some (Resolver p) \<Longrightarrow> p = k"
  shows "channel_inv a"
  unfolding channel_inv_def fields_inv_def
  apply (intro conjI allI impI)
  using assms by simp_all

lemma channel_inv_slot:
  "channel_inv a \<Longrightarrow> pendingRequests a k = Some (Resolver p) \<Longrightarrow> p = k"
  unfolding channel_inv_def fields_inv_def by (elim conjE) (erule allE, erule allE, erule impE, assumption+)

lemma channel_inv_fresh:
  assumes "channel_inv a" and "k < 1 \<or> messageId a \<le> k"
  shows "pendingRequests a k = None \<and> settled a k = None \<and> timers a k = None"
proof -
  have "\<forall>k. k < 1 \<or> messageId a \<le> k \<longrightarrow>
           pendingRequests a k = None \<and> settled a k = None \<and> timers a k = None"
    using assms(1) unfolding channel_inv_def fields_inv_def by (elim conjE)
  then show ?thesis using assms(2) by (elim allE impE)
qed

lemma channel_invD:
  assumes "channel_inv a"
  shows "1 \<le> messageId a"
    and "map w_id (sendLog a) = [1..<messageId a]"
    and "\<And>k. k < 1 \<or> messageId a \<le> k \<Longrightarrow> pendingRequests a k = None"
    and "\<And>k. k < 1 \<or> messageId a \<le> k \<Longrightarrow> settled a k = None"
    and "\<And>k. k < 1 \<or> messageId a \<le> k \<Longrightarrow> timers a k = None"
    and "\<And>k p. pendingRequests a k = Some (Resolver p) \<Longrightarrow> p = k"
proof -
  show "1 \<le> messageId a"
    using assms unfolding channel_inv_def fields_inv_def by (elim conjE)
  show "map w_id (sendLog a) = [1..<messageId a]"
    using assms unfolding channel_inv_def fields_inv_def by (elim conjE)
  show "pendingRequests a k = None" if "k < 1 \<or> messageId a \<le> k" for k
    using channel_inv_fresh [OF assms that] by (elim conjE)
  show "settled a k = None" if "k < 1 \<or> messageId a \<le> k" for k
    using channel_inv_fresh [OF assms that] by (elim conjE)
  show "timers a k = None" if "k < 1 \<or> messageId a \<le> k" for k
    using channel_inv_fresh [OF assms that] by (elim conjE)
  show "p = k" if "pendingRequests a k = Some (Resolver p)" for k p
    using channel_inv_slot [OF assms that] .
qed

lemma channel_inv_elapse:
  assumes "channel_inv a"
  shows "channel_inv (elapse d a)"
proof (rule channel_invI)
  note D = channel_invD [OF assms]
  show "1 \<le> messageId (elapse d a)" using D(1) by simp
  show "map w_id (sendLog (elapse d a)) = [1..<messageId (elapse d a)]" using D(2) by simp
  show "pendingRequests (elapse d a) k = None" if "k < 1 \<or> messageId (elapse d a) \<le> k" for k
    using that D(3) [of k] by (simp add: elapse_none)
  show "settled (elapse d a) k = None" if "k < 1 \<or> messageId (elapse d a) \<le> k" for k
    using that D(4) [of k] D(5) [of k] by (simp add: elapse_none)
  show "timers (elapse d a) k = None" if "k < 1 \<or> messageId (elapse d a) \<le> k" for k
    using that D(5) [of k] by (simp add: elapse_none)
  show "p = k" if "pendingRequests (elapse d a) k = Some (Resolver p)" for k p
    using elapse_slot [OF that] D(6) by blast
qed

lemma handleRpcResponse_frame [simp]:
  "messageId (handleRpcResponse m a) = messageId a"
  "sendLog (handleRpcResponse m a) = sendLog a"
  "ws (handleRpcResponse m a) = ws a"
  "isConnected (handleRpcResponse m a) = isConnected a"
  "clock (handleRpcResponse m a) = clock a"
  "delivered (handleRpcResponse m a) = delivered a"
  "deviceId (handleRpcResponse m a) = deviceId a"
  "notificationHandler (handleRpcResponse m a) = notificationHandler a"
  by (simp_all add: handleRpcResponse_def Let_def split: option.splits resolver.splits)

lemma handleRpcResponse_none:
  "pendingRequests a k = None \<Longrightarrow> pendingRequests (handleRpcResponse m a) k = None"
  "timers a k = None \<Longrightarrow> timers (handleRpcResponse m a) k = None"
  by (simp_all add: handleRpcResponse_def Let_def split: option.splits resolver.splits)

lemma handleRpcResponse_slot:
  "pendingRequests (handleRpcResponse m a) k = Some r \<Longrightarrow> pendingRequests a k = Some r"
  by (auto simp: handleRpcResponse_def Let_def split: option.splits resolver.splits if_splits)

lemma handleRpcResponse_settled_fresh:
  assumes "\<forall>k p. pendingRequests a k = Some (Resolver p) \<longrightarrow> p = k"
    and "pendingRequests a k = None"
  shows "settled (handleRpcResponse m a) k = settled a k"
proof (cases "id_key (field m ''id'')")
  case None
  then show ?thesis by (simp add: handleRpcResponse_def)
next
  case (Some x)
  show ?thesis
  proof (cases "pendingRequests a x")
    case None
    then show ?thesis using Some by (simp add: handleRpcResponse_def)
  next
    case (Some r)
    obtain p where r: "r = Resolver p" by (cases r)
    have "p = x" using assms(1) Some r by blast
    moreover have "x \<noteq> k" using assms(2) Some by auto
    ultimately have "p \<noteq> k" by simp
    then show ?thesis
      using Some r \<open>id_key (field m ''id'') = Some x\<close>
      by (simp add: handleRpcResponse_def Let_def settled_settle split: option.splits)
  qed
qed

lemma channel_inv_handleRpcResponse:
  assumes "channel_inv a"
  shows "channel_inv (handleRpcResponse m a)"
proof (rule channel_invI)
  note D = channel_invD [OF assms]
  have sl: "\<forall>k p. pendingRequests a k = Some (Resolver p) \<longrightarrow> p = k"
    using D(6) by blast
  show "1 \<le> messageId (handleRpcResponse m a)" using D(1) by simp
  show "map w_id (sendLog (handleRpcResponse m a)) = [1..<messageId (handleRpcResponse m a)]"
    using D(2) by simp
  show "pendingRequests (handleRpcResponse m a) k = None"
    if "k < 1 \<or> messageId (handleRpcResponse m a) \<le> k" for k
    using that D(3) [of k] by (simp add: handleRpcResponse_none)
  show "settled (handleRpcResponse m a) k = None"
    if "k < 1 \<or> messageId (handleRpcResponse m a) \<le> k" for k
    using that D(3) [of k] D(4) [of k] handleRpcResponse_settled_fresh [OF sl, of k m] by simp
  show "timers (handleRpcResponse m a) k = None"
    if "k < 1 \<or> messageId (handleRpcResponse m a) \<le> k" for k
    using that D(5) [of k] by (simp add: handleRpcResponse_none)
  show "p = k" if "pendingRequests (handleRpcResponse m a) k = Some (Resolver p)" for k p
    using handleRpcResponse_slot [OF that] D(6) by blast
qed

lemma deliver_eq:
  "deliver params a =
     (case reshape params of
        Inl stop \<Rightarrow> Inl stop
      | Inr upd \<Rightarrow>
          Inr (case notificationHandler a of
                 None \<Rightarrow> a
               | Some h \<Rightarrow> a\<lparr>delivered := delivered a @ [envelope (field params ''ts'') upd]\<rparr>))"
  by (simp add: deliver_def Let_def split: option.splits sum.splits)

lemma channel_inv_delivered [simp]: "channel_inv (a\<lparr>delivered := d\<rparr>) = channel_inv a"
  by (simp add: channel_inv_def)

lemma channel_inv_deliver:
  "deliver params a = Inr a' \<Longrightarrow> channel_inv a \<Longrightarrow> channel_inv a'"
  by (auto simp: deliver_eq split: option.splits sum.splits)

lemma deliver_messageId: "deliver params a = Inr a' \<Longrightarrow> messageId a' = messageId a"
  by (auto simp: deliver_eq split: option.splits sum.splits)

lemma handleNotification_inv:
  "handleNotification m a = Inr a' \<Longrightarrow> channel_inv a \<Longrightarrow> channel_inv a'"
  by (auto simp: handleNotification_def dest: channel_inv_deliver split: if_splits option.splits)

lemma handleNotification_messageId:
  "handleNotification m a = Inr a' \<Longrightarrow> messageId a' = messageId a"
  by (auto simp: handleNotification_def dest: deliver_messageId split: if_splits option.splits)

lemma channel_inv_handleMessage:
  "handleMessage m a = Inr a' \<Longrightarrow> channel_inv a \<Longrightarrow> channel_inv a'"
  by (auto simp: handleMessage_def channel_inv_handleRpcResponse
      dest: handleNotification_inv split: if_splits)

lemma request_send_id: "fst (request_send method params sr a) = messageId a"
  by (simp add: request_send_def Let_def split: option.splits send_result.splits)

lemma request_send_frame [simp]:
  "messageId (snd (request_send method params sr a)) = Suc (messageId a)"
  "ws (snd (request_send method params sr a)) = ws a"
  "isConnected (snd (request_send method params sr a)) = isConnected a"
  "clock (snd (request_send method params sr a)) = clock a"
  "delivered (snd (request_send method params sr a)) = delivered a"
  "deviceId (snd (request_send method params sr a)) = deviceId a"
  "notificationHandler (snd (request_send method params sr a)) = notificationHandler a"
  "pendingRequests (snd (request_send method params sr a))
     = (pendingRequests a)(messageId a \<mapsto> Resolver (messageId a))"
  by (simp_all add: request_send_def Let_def split: option.splits send_result.splits)

lemma request_send_log:
  "map w_id (sendLog (snd (request_send method params sr a))) = map w_id (sendLog a) @ [messageId a]"
  by (simp add: request_send_def Let_def split: option.splits send_result.splits)

lemma request_send_other:
  "k \<noteq> messageId a \<Longrightarrow> timers (snd (request_send method params sr a)) k = timers a k"
  "k \<noteq> messageId a \<Longrightarrow> settled (snd (request_send method params sr a)) k = settled a k"
  by (simp_all add: request_send_def Let_def settled_settle split: option.splits send_result.splits)

lemma channel_inv_request_send:
  assumes "channel_inv a"
  shows "channel_inv (snd (request_send method params sr a))"
proof (rule channel_invI)
  note D = channel_invD [OF assms]
  let ?b = "snd (request_send method params sr a)"
  show "1 \<le> messageId ?b" by simp
  show "map w_id (sendLog ?b) = [1..<messageId ?b]"
    using D(1,2) by (simp add: request_send_log)
  show "pendingRequests ?b k = None" if "k < 1 \<or> messageId ?b \<le> k" for k
    using that D(1) D(3) [of k] by auto
  show "settled ?b k = None" if "k < 1 \<or> messageId ?b \<le> k" for k
    using that D(1) D(4) [of k] by (auto simp: request_send_other)
  show "timers ?b k = None" if "k < 1 \<or> messageId ?b \<le> k" for k
    using that D(1) D(5) [of k] by (auto simp: request_send_other)
  show "p = k" if "pendingRequests ?b k = Some (Resolver p)" for k p
    using that D(6) [of k p] by (auto split: if_splits)
qed

lemma cleanupWebSocket_inv: "channel_inv (cleanupWebSocket a) = channel_inv a"
  by (simp add: cleanupWebSocket_def channel_inv_def split: option.splits)

lemma channel_inv_ws [simp]:
  "channel_inv (a\<lparr>ws := w\<rparr>) = channel_inv a"
  "channel_inv (a\<lparr>isConnected := b\<rparr>) = channel_inv a"
  "channel_inv (a\<lparr>notificationHandler := h\<rparr>) = channel_inv a"
  by (simp_all add: channel_inv_def)

lemma channel_inv_step: "step e a = Inr a' \<Longrightarrow> channel_inv a \<Longrightarrow> channel_inv a'"
proof (cases e)
  case (Ws_message m)
  then show "step e a = Inr a' \<Longrightarrow> channel_inv a \<Longrightarrow> channel_inv a'"
    by (auto dest: channel_inv_handleMessage)
qed (auto simp: channel_inv_request_send channel_inv_elapse cleanupWebSocket_inv
      disconnect_def handleError_def Let_def setNotificationHandler_def)

lemma channel_inv_run: "run a evs = Inr a' \<Longrightarrow> channel_inv a \<Longrightarrow> channel_inv a'"
  by (induction evs arbitrary: a) (auto split: sum.splits dest: channel_inv_step)

lemma channel_inv_new: "channel_inv (ShellyApi_new i d)"
  by (simp add: channel_inv_def fields_inv_def ShellyApi_new_def)

lemma request_send_throws:
  assumes "settled a (messageId a) = None"
    and "ws a = None \<or> sr = SendThrows err"
  shows "settled (snd (request_send method params sr a)) (messageId a)
           = Some (Rejected (ReferenceError ''id is not defined''))"
  using assms
  by (auto simp: request_send_def Let_def settled_settle split: option.splits send_result.splits)

lemma await_exchange_settled:
  "settled a k = Some out \<Longrightarrow> await_exchange k ex a = a"
  by (simp add: await_exchange_def)

lemma id_key_real [simp]: "id_key (Some (JNum (real k))) = Some k"
  by (simp add: id_key_def)

lemma request_send_ok:
  assumes "ws a \<noteq> None"
  shows "request_send method params SendOk a =
           (messageId a,
            a\<lparr>messageId := Suc (messageId a),
              timers := (timers a)(messageId a \<mapsto> clock a + REQUEST_TIMEOUT),
              pendingRequests := (pendingRequests a)(messageId a \<mapsto> Resolver (messageId a)),
              sendLog := sendLog a @
                [\<lparr>w_id = messageId a,
                  w_src = (case deviceId a of None \<Rightarrow> ''homey_default''
                           | Some d \<Rightarrow> if d = [] then ''homey_default'' else d),
                  w_method = method, w_params = params\<rparr>]\<rparr>)"
  using assms by (auto simp: request_send_def Let_def split: option.splits)

lemma fire_due_fires:
  assumes "timers a k = Some dl" and "dl \<le> clock a" and "settled a k = None"
  shows "settled (fire_due k a) k = Some (Rejected (Error ''REQUEST_TIMEOUT'' None))"
    and "pendingRequests (fire_due k a) k = None"
    and "timers (fire_due k a) k = None"
  using assms by (simp_all add: fire_due_def settled_requestTimeout)

lemma fold_fire_due_fires:
  assumes "k \<in> set ks" and "distinct ks"
    and "timers a k = Some dl" and "dl \<le> clock a" and "settled a k = None"
  shows "settled (fold fire_due ks a) k = Some (Rejected (Error ''REQUEST_TIMEOUT'' None)) \<and>
         pendingRequests (fold fire_due ks a) k = None \<and>
         timers (fold fire_due ks a) k = None"
  using assms
proof (induction ks arbitrary: a)
  case Nil
  then show ?case by simp
next
  case (Cons j js)
  show ?case
  proof (cases "j = k")
    case True
    then have "k \<notin> set js" using Cons.prems(2) by simp
    then show ?thesis
      using True fire_due_fires [OF Cons.prems(3,4,5)]
      by (simp add: fold_fire_due_notin)
  next
    case False
    then have "k \<in> set js" using Cons.prems(1) by simp
    moreover have "distinct js" using Cons.prems(2) by simp
    moreover have "timers (fire_due j a) k = Some dl"
      using False Cons.prems(3) by (simp add: fire_due_other)
    moreover have "dl \<le> clock (fire_due j a)" using Cons.prems(4) by simp
    moreover have "settled (fire_due j a) k = None"
      using False Cons.prems(5) by (simp add: fire_due_other)
    ultimately show ?thesis
      using Cons.IH [of "fire_due j a"] by simp
  qed
qed

lemma elapse_fires:
  assumes "k < messageId a" and "timers a k = Some dl" and "dl \<le> clock a + d"
    and "settled a k = None"
  shows "settled (elapse d a) k = Some (Rejected (Error ''REQUEST_TIMEOUT'' None)) \<and>
         pendingRequests (elapse d a) k = None \<and>
         timers (elapse d a) k = None"
  unfolding elapse_def
  by (rule fold_fire_due_fires [where dl = dl]) (use assms in simp_all)

lemma handleRpcResponse_match:
  assumes "pendingRequests a k = Some (Resolver k)" and "settled a k = None"
  shows "settled (handleRpcResponse (JObj [(''id'', JNum (real k)), (''result'', r)]) a) k
           = Some (Resolved (Some r))"
    and "settled (handleRpcResponse (JObj [(''id'', JNum (real k)), (''error'', e)]) a) k
           = Some (if truthy e then Rejected (RpcError e) else Resolved None)"
    and "pendingRequests (handleRpcResponse (JObj [(''id'', JNum (real k)), (''result'', r)]) a) k = None"
    and "pendingRequests (handleRpcResponse (JObj [(''id'', JNum (real k)), (''error'', e)]) a) k = None"
  using assms by (simp_all add: handleRpcResponse_def Let_def settled_settle)

lemma await_exchange_frame [simp]:
  "messageId (await_exchange k ex a) = messageId a"
  "sendLog (await_exchange k ex a) = sendLog a"
  "ws (await_exchange k ex a) = ws a"
  "isConnected (await_exchange k ex a) = isConnected a"
  "delivered (await_exchange k ex a) = delivered a"
  "deviceId (await_exchange k ex a) = deviceId a"
  "notificationHandler (await_exchange k ex a) = notificationHandler a"
  by (simp_all add: await_exchange_def split: option.splits exchange.splits)

lemma channel_inv_await_exchange: "channel_inv a \<Longrightarrow> channel_inv (await_exchange k ex a)"
  by (simp add: await_exchange_def channel_inv_handleRpcResponse channel_inv_elapse
      split: option.splits exchange.splits)

text \<open>Whatever the device does, the promise of a request that went through
  \<open>request_send\<close> is settled once its exchange has ended.\<close>

lemma exchange_ends:
  assumes "channel_inv a"
  shows "settled (await_exchange (messageId a) ex (snd (request_send method params sr a)))
           (messageId a) \<noteq> None"
proof -
  let ?k = "messageId a"
  let ?b = "snd (request_send method params sr a)"
  have fresh: "settled a ?k = None"
    using channel_invD(4) [OF assms, of ?k] by simp
  show ?thesis
  proof (cases "ws a = None \<or> (\<exists>err. sr = SendThrows err)")
    case True
    then have "settled ?b ?k = Some (Rejected (ReferenceError ''id is not defined''))"
      using request_send_throws [OF fresh] by blast
    then show ?thesis by (simp add: await_exchange_def)
  next
    case False
    then have w: "ws a \<noteq> None" and sr: "sr = SendOk" by (auto intro: send_result.exhaust)
    have p: "pendingRequests ?b ?k = Some (Resolver ?k)" by simp
    have s: "settled ?b ?k = None"
      using fresh sr by (simp add: request_send_ok [OF w])
    have t: "timers ?b ?k = Some (clock ?b + REQUEST_TIMEOUT)"
      using sr by (simp add: request_send_ok [OF w])
    show ?thesis
    proof (cases ex)
      case (RespondsResult r)
      then show ?thesis using s handleRpcResponse_match(1) [OF p s] by (simp add: await_exchange_def)
    next
      case (RespondsError e)
      then show ?thesis using s handleRpcResponse_match(2) [OF p s] by (simp add: await_exchange_def)
    next
      case NoResponse
      have "?k < messageId ?b" by simp
      then show ?thesis
        using NoResponse s elapse_fires [OF _ t _ s, of REQUEST_TIMEOUT]
        by (simp add: await_exchange_def)
    qed
  qed
qed

subsection \<open>A send that throws\<close>

lemma try_once_send_throws:
  assumes "channel_inv a" and "isConnected a" and "sendResult e = SendThrows err"
  shows "fst (try_once e method params a) = Inr (Some (Rejected (ReferenceError ''id is not defined'')))"
proof -
  have fresh: "settled a (messageId a) = None"
    using channel_invD(4) [OF assms(1), of "messageId a"] by simp
  obtain k a2 where rs: "request_send method params (sendResult e) a = (k, a2)"
    by (cases "request_send method params (sendResult e) a")
  have "fst (request_send method params (sendResult e) a) = messageId a"
    by (rule request_send_id)
  then have k: "k = messageId a" using rs by simp
  have "settled (snd (request_send method params (sendResult e) a)) (messageId a)
          = Some (Rejected (ReferenceError ''id is not defined''))"
    by (rule request_send_throws [OF fresh, where err = err]) (simp add: assms(3))
  then have st: "settled a2 k = Some (Rejected (ReferenceError ''id is not defined''))"
    using rs k by simp
  show ?thesis
    using assms(2) rs st by (simp add: try_once_def await_exchange_settled)
qed

lemma request_send_failure_not_retried:
  assumes "channel_inv a" and "isConnected a" and "sendResult (env r) = SendThrows err"
  shows "fst (request r env method params a) = Some (Rejected (ReferenceError ''id is not defined''))
         \<and> fst (snd (request r env method params a)) = [RequestCall r]"
proof -
  obtain res a1 where t: "try_once (env r) method params a = (res, a1)"
    by (cases "try_once (env r) method params a")
  have "fst (try_once (env r) method params a)
          = Inr (Some (Rejected (ReferenceError ''id is not defined'')))"
    by (rule try_once_send_throws [OF assms])
  then have "res = Inr (Some (Rejected (ReferenceError ''id is not defined'')))"
    using t by simp
  then show ?thesis using t by (cases r) simp_all
qed

lemma request_attempts_bound:
  "length (filter is_call (fst (snd (request r env method params a)))) \<le> r + 1"
proof (induction r arbitrary: a)
  case 0
  then show ?case by (simp split: prod.splits sum.splits)
next
  case (Suc r)
  show ?case
  proof (cases "try_once (env (Suc r)) method params a")
    case (Pair res a1)
    show ?thesis
    proof (cases res)
      case (Inl err)
      show ?thesis
      proof (cases "retryable err")
        case True
        obtain out tr a2 where rq: "request r env method params (elapse RETRY_DELAY a1) = (out, tr, a2)"
          by (cases "request r env method params (elapse RETRY_DELAY a1)") auto
        have "length (filter is_call tr) \<le> r + 1"
          using Suc.IH [of "elapse RETRY_DELAY a1"] rq by simp
        then show ?thesis using Pair Inl True rq by simp
      next
        case False
        then show ?thesis using Pair Inl by simp
      qed
    next
      case (Inr out)
      then show ?thesis using Pair by simp
    qed
  qed
qed

lemma connect_opens:
  assumes "ws a = None"
  shows "connect (Opens sr ex) a =
           (Inr (), 1, await_exchange (messageId a) ex
              (snd (request_send ''Shelly.GetStatus'' (JObj []) sr
                      (a\<lparr>ws := Some OPEN, isConnected := True\<rparr>))))"
proof -
  let ?a2 = "a\<lparr>ws := Some OPEN, isConnected := True\<rparr>"
  obtain k a3 where rs: "request_send ''Shelly.GetStatus'' (JObj []) sr ?a2 = (k, a3)"
    by (cases "request_send ''Shelly.GetStatus'' (JObj []) sr ?a2")
  have "k = messageId a"
    using request_send_id [of "''Shelly.GetStatus''" "JObj []" sr ?a2] rs by simp
  then show ?thesis using assms rs by (simp add: connect_def)
qed

lemma channel_inv_connect: "channel_inv a \<Longrightarrow> channel_inv (snd (snd (connect tr a)))"
proof (cases "ws a")
  case None
  assume inv: "channel_inv a"
  show ?thesis
  proof (cases tr)
    case (Opens sr ex)
    show ?thesis
      unfolding Opens connect_opens [OF None]
      using inv by (simp add: channel_inv_await_exchange channel_inv_request_send)
  next
    case (Fails err)
    then show ?thesis
      using None inv by (simp add: connect_def handleError_def Let_def cleanupWebSocket_inv)
  qed
next
  case (Some w)
  assume "channel_inv a"
  then show ?thesis using Some by (simp add: connect_def)
qed

lemma channel_inv_open_api: "channel_inv (open_api d)"
  unfolding open_api_def setNotificationHandler_def
  using channel_inv_connect [OF channel_inv_new] by simp

lemma open_api_connected: "isConnected (open_api d)"
  unfolding open_api_def setNotificationHandler_def
  by (simp add: connect_opens ShellyApi_new_def)

lemma open_api_ws: "ws (open_api d) = Some OPEN"
  unfolding open_api_def setNotificationHandler_def
  by (simp add: connect_opens ShellyApi_new_def)

text \<open>
  C3. On a connected channel, \<open>request('Switch.Set', {id: 0, on: true}, 1)\<close> whose
  \<open>ws.send\<close> throws an error with the retryable code ETIMEDOUT: the call is rejected with
  ReferenceError after one call of \<open>request\<close>, with no delay and no second attempt.
\<close>

theorem send_failure_not_retried_example:
  "retryable (Error ''write ETIMEDOUT'' (Some ''ETIMEDOUT'')) \<and>
   sendResult (env_send_timeout 1) = SendThrows (Error ''write ETIMEDOUT'' (Some ''ETIMEDOUT'')) \<and>
   fst (request 1 env_send_timeout ''Switch.Set'' (JObj [(''id'', JNum 0), (''on'', JBool True)])
          (open_api ''shelly1_switch:0''))
     = Some (Rejected (ReferenceError ''id is not defined'')) \<and>
   fst (snd (request 1 env_send_timeout ''Switch.Set'' (JObj [(''id'', JNum 0), (''on'', JBool True)])
          (open_api ''shelly1_switch:0'')))
     = [RequestCall 1]"
proof -
  have a: "retryable (Error ''write ETIMEDOUT'' (Some ''ETIMEDOUT''))"
    by (simp add: retryable_def RETRYABLE_ERRORS_def)
  have b: "sendResult (env_send_timeout 1) = SendThrows (Error ''write ETIMEDOUT'' (Some ''ETIMEDOUT''))"
    by (simp add: env_send_timeout_def)
  have c: "isConnected (open_api ''shelly1_switch:0'')"
    by (rule open_api_connected)
  show ?thesis
    using a b request_send_failure_not_retried [of "open_api ''shelly1_switch:0''" env_send_timeout 1, OF channel_inv_open_api c b] by blast
qed

subsection \<open>Connection failures are retried\<close>

lemma handleError_state: "snd (handleError err a) = cleanupWebSocket a"
  by (simp add: handleError_def Let_def)

lemma handleError_retryable:
  assumes "c \<in> set RETRYABLE_ERRORS"
    and "\<not> str_includes msg ''404''" and "\<not> str_includes msg ''Unexpected server response''"
  shows "fst (handleError (Error msg (Some c)) a)
           = Error ''Device discovery: connection failed'' (Some c)"
proof -
  have "c \<noteq> []" using assms(1) by (auto simp: RETRYABLE_ERRORS_def)
  then show ?thesis using assms(2,3) by (simp add: handleError_def Let_def)
qed

lemma try_once_connect_fails:
  assumes "\<not> isConnected a" and "ws a = None" and "transport e = Fails err"
  shows "try_once e method params a
           = (Inl (fst (handleError err (a\<lparr>ws := Some CONNECTING\<rparr>))), a)"
proof -
  have "cleanupWebSocket (a\<lparr>ws := Some CONNECTING\<rparr>) = a"
    using assms(1,2) by (simp add: cleanupWebSocket_def)
  then have "snd (handleError err (a\<lparr>ws := Some CONNECTING\<rparr>)) = a"
    by (simp add: handleError_state)
  then obtain x where h: "handleError err (a\<lparr>ws := Some CONNECTING\<rparr>) = (x, a)"
    by (metis prod.collapse)
  show ?thesis
    using assms by (simp add: try_once_def connect_def h)
qed

lemma elapse_idle:
  assumes "\<forall>k. timers a k = None"
  shows "elapse d a = a\<lparr>clock := clock a + d\<rparr>"
proof -
  have "fold fire_due ks b = b" if "\<forall>k. timers b k = None" for ks b
    using that by (induction ks) (simp_all add: fire_due_def)
  then show ?thesis using assms by (simp add: elapse_def)
qed

lemma request_connect_failure_retried:
  assumes "\<not> isConnected a" and "ws a = None"
    and "\<forall>n\<le>r. \<exists>msg c. transport (env n) = Fails (Error msg (Some c)) \<and>
            c \<in> set RETRYABLE_ERRORS \<and> \<not> str_includes msg ''404'' \<and>
            \<not> str_includes msg ''Unexpected server response''"
  shows "length (filter is_call (fst (snd (request r env method params a)))) = r + 1 \<and>
         length (filter (\<lambda>x. x = Backoff RETRY_DELAY) (fst (snd (request r env method params a)))) = r \<and>
         (\<exists>c\<in>set RETRYABLE_ERRORS. fst (request r env method params a)
             = Some (Rejected (Error ''Device discovery: connection failed'' (Some c))))"
  using assms
proof (induction r arbitrary: a)
  case 0
  then obtain msg c where e: "transport (env 0) = Fails (Error msg (Some c))"
    and c: "c \<in> set RETRYABLE_ERRORS" and m: "\<not> str_includes msg ''404''"
      "\<not> str_includes msg ''Unexpected server response''"
    by auto
  show ?case
    using c by (auto simp: try_once_connect_fails [OF "0.prems"(1,2) e] handleError_retryable [OF c m])
next
  case (Suc r)
  then obtain msg c where e: "transport (env (Suc r)) = Fails (Error msg (Some c))"
    and c: "c \<in> set RETRYABLE_ERRORS" and m: "\<not> str_includes msg ''404''"
      "\<not> str_includes msg ''Unexpected server response''"
    by (meson le_refl)
  have t: "try_once (env (Suc r)) method params a
             = (Inl (Error ''Device discovery: connection failed'' (Some c)), a)"
    by (simp add: try_once_connect_fails [OF Suc.prems(1,2) e] handleError_retryable [OF c m])
  have rt: "retryable (Error ''Device discovery: connection failed'' (Some c))"
    using c by (simp add: retryable_def)
  let ?b = "elapse RETRY_DELAY a"
  have b: "\<not> isConnected ?b" "ws ?b = None" using Suc.prems(1,2) by simp_all
  have rest: "\<forall>n\<le>r. \<exists>msg c. transport (env n) = Fails (Error msg (Some c)) \<and>
            c \<in> set RETRYABLE_ERRORS \<and> \<not> str_includes msg ''404'' \<and>
            \<not> str_includes msg ''Unexpected server response''"
    using Suc.prems(3) by auto
  note IH = Suc.IH [OF b rest]
  obtain out tr a2 where rq: "request r env method params ?b = (out, tr, a2)"
    by (cases "request r env method params ?b") auto
  show ?case
    using IH rq t rt by simp
qed

subsection \<open>The contract of connect\<close>

lemma request_send_log_eq:
  "sendLog (snd (request_send method params sr a))
     = sendLog a @ [\<lparr>w_id = messageId a,
                      w_src = (case deviceId a of None \<Rightarrow> ''homey_default''
                               | Some d \<Rightarrow> if d = [] then ''homey_default'' else d),
                      w_method = method, w_params = params\<rparr>]"
  by (simp add: request_send_def Let_def split: option.splits send_result.splits)

lemma handleError_kind: "err_code (fst (handleError err a)) = Some (error_kind err)"
  by (simp add: handleError_def error_kind_def Let_def split: option.splits)

text \<open>
  C4. \<open>connect\<close> on a channel that has a socket (connected or connecting) returns a
  resolved promise, creates no socket and leaves the state as it is. With no socket, one
  socket is created; when it opens, the promise resolves in a state where exactly one
  message, the status query, was added to the send log and the promise of that query is
  settled; when it fails, the promise is rejected with an error whose code is
  NOT_SHELLY_DEVICE, the transport's code or CONNECTION_FAILED, and the socket is gone.
\<close>

theorem connect_contract:
  assumes "channel_inv a"
  shows "(ws a \<noteq> None \<longrightarrow> connect tr a = (Inr (), 0, a)) \<and>
         (ws a = None \<longrightarrow>
            (\<forall>sr ex. tr = Opens sr ex \<longrightarrow>
               (\<exists>a'. connect tr a = (Inr (), 1, a') \<and> isConnected a' \<and>
                     sendLog a' = sendLog a @ [status_query a] \<and>
                     settled a' (messageId a) \<noteq> None)) \<and>
            (\<forall>err. tr = Fails err \<longrightarrow>
               (\<exists>e a'. connect tr a = (Inl e, 1, a') \<and> err_code e = Some (error_kind err) \<and>
                       ws a' = None \<and> \<not> isConnected a' \<and> sendLog a' = sendLog a)))"
proof (intro conjI impI allI)
  assume "ws a \<noteq> None"
  then show "connect tr a = (Inr (), 0, a)" by (simp add: connect_def)
next
  fix sr ex
  assume w: "ws a = None" and tr: "tr = Opens sr ex"
  let ?a2 = "a\<lparr>ws := Some OPEN, isConnected := True\<rparr>"
  let ?a' = "await_exchange (messageId a) ex
               (snd (request_send ''Shelly.GetStatus'' (JObj []) sr ?a2))"
  have inv2: "channel_inv ?a2" using assms by simp
  have "connect tr a = (Inr (), 1, ?a')" unfolding tr by (rule connect_opens [OF w])
  moreover have "isConnected ?a'" by simp
  moreover have "sendLog ?a' = sendLog a @ [status_query a]"
    by (simp add: request_send_log_eq status_query_def)
  moreover have "settled ?a' (messageId a) \<noteq> None"
    using exchange_ends [OF inv2, of ex "''Shelly.GetStatus''" "JObj []" sr] by simp
  ultimately show "\<exists>a'. connect tr a = (Inr (), 1, a') \<and> isConnected a' \<and>
                     sendLog a' = sendLog a @ [status_query a] \<and>
                     settled a' (messageId a) \<noteq> None"
    by blast
next
  fix err
  assume w: "ws a = None" and tr: "tr = Fails err"
  let ?a1 = "a\<lparr>ws := Some CONNECTING\<rparr>"
  obtain x where h: "handleError err ?a1 = (x, cleanupWebSocket ?a1)"
    using handleError_state [of err ?a1] by (metis prod.collapse)
  have c: "connect tr a = (Inl (fst (handleError err ?a1)), 1, cleanupWebSocket ?a1)"
    using w tr by (simp add: connect_def h)
  have "ws (cleanupWebSocket ?a1) = None" "\<not> isConnected (cleanupWebSocket ?a1)"
    "sendLog (cleanupWebSocket ?a1) = sendLog a"
    by (simp_all add: cleanupWebSocket_def)
  then show "\<exists>e a'. connect tr a = (Inl e, 1, a') \<and> err_code e = Some (error_kind err) \<and>
                       ws a' = None \<and> \<not> isConnected a' \<and> sendLog a' = sendLog a"
    using c handleError_kind by blast
qed

theorem connect_contract_witness:
  "channel_inv (ShellyApi_new ''192.168.1.50'' (Some ''shelly1_switch:0'')) \<and>
   ws (ShellyApi_new ''192.168.1.50'' (Some ''shelly1_switch:0'')) = None \<and>
   (\<exists>a'. connect (Opens SendOk NoResponse)
            (ShellyApi_new ''192.168.1.50'' (Some ''shelly1_switch:0'')) = (Inr (), 1, a') \<and>
         isConnected a' \<and>
         sendLog a' = [status_query (ShellyApi_new ''192.168.1.50'' (Some ''shelly1_switch:0''))] \<and>
         settled a' 1 \<noteq> None)"
proof -
  let ?a = "ShellyApi_new ''192.168.1.50'' (Some ''shelly1_switch:0'')"
  have i: "channel_inv ?a" by (rule channel_inv_new)
  have w: "ws ?a = None" by (simp add: ShellyApi_new_def)
  have l: "sendLog ?a = []" "messageId ?a = 1" by (simp_all add: ShellyApi_new_def)
  show ?thesis
    using connect_contract [OF i, of "Opens SendOk NoResponse"] i w l by simp
qed

subsection \<open>Timeout of a request\<close>

lemma try_once_no_response:
  assumes "channel_inv a" and "isConnected a" and "ws a \<noteq> None"
    and "sendResult e = SendOk" and "exchange e = NoResponse"
  shows "fst (try_once e method params a) = Inr (Some (Rejected (Error ''REQUEST_TIMEOUT'' None)))"
    and "pendingRequests (snd (try_once e method params a)) (messageId a) = None"
    and "clock (snd (try_once e method params a)) = clock a + REQUEST_TIMEOUT"
    and "map w_id (sendLog (snd (try_once e method params a))) = map w_id (sendLog a) @ [messageId a]"
    and "messageId (snd (try_once e method params a)) = Suc (messageId a)"
proof -
  let ?k = "messageId a"
  let ?b = "snd (request_send method params SendOk a)"
  have fresh: "settled a ?k = None"
    using channel_invD(4) [OF assms(1), of ?k] by simp
  have s: "settled ?b ?k = None"
    using fresh by (simp add: request_send_ok [OF assms(3)])
  have t: "timers ?b ?k = Some (clock ?b + REQUEST_TIMEOUT)"
    by (simp add: request_send_ok [OF assms(3)])
  have lt: "?k < messageId ?b" by simp
  have fired: "settled (elapse REQUEST_TIMEOUT ?b) ?k = Some (Rejected (Error ''REQUEST_TIMEOUT'' None)) \<and>
         pendingRequests (elapse REQUEST_TIMEOUT ?b) ?k = None \<and>
         timers (elapse REQUEST_TIMEOUT ?b) ?k = None"
    by (rule elapse_fires [OF lt t _ s]) simp
  have aw: "await_exchange ?k NoResponse ?b = elapse REQUEST_TIMEOUT ?b"
    using s by (simp add: await_exchange_def)
  have to: "try_once e method params a
              = (Inr (settled (elapse REQUEST_TIMEOUT ?b) ?k), elapse REQUEST_TIMEOUT ?b)"
    using assms(2,4,5) aw by (simp add: try_once_def case_prod_beta request_send_id Let_def)
  show "fst (try_once e method params a) = Inr (Some (Rejected (Error ''REQUEST_TIMEOUT'' None)))"
    using to fired by simp
  show "pendingRequests (snd (try_once e method params a)) (messageId a) = None"
    using to fired by simp
  show "clock (snd (try_once e method params a)) = clock a + REQUEST_TIMEOUT"
    using to by simp
  show "map w_id (sendLog (snd (try_once e method params a))) = map w_id (sendLog a) @ [messageId a]"
    using to by (simp add: request_send_log)
  show "messageId (snd (try_once e method params a)) = Suc (messageId a)"
    using to by simp
qed

lemma request_of_try_once:
  assumes "fst (try_once (env r) method params a) = Inr out"
  shows "request r env method params a = (out, [RequestCall r], snd (try_once (env r) method params a))"
proof -
  obtain res a1 where t: "try_once (env r) method params a = (res, a1)"
    by (cases "try_once (env r) method params a")
  then show ?thesis using assms by (cases r) simp_all
qed

text \<open>
  C5. A call on a connected channel whose message was sent and to which no response arrives
  before the timer set to \<open>REQUEST_TIMEOUT\<close> = 5000 ms fires: the timer's callback removes
  the slot from the pending map and rejects the promise with \<open>REQUEST_TIMEOUT\<close>. Whatever
  the retry budget, \<open>request\<close> is called once, one id is used and one message is logged.
\<close>

theorem request_timeout:
  assumes "channel_inv a" and "isConnected a" and "ws a \<noteq> None"
    and "sendResult (env r) = SendOk" and "exchange (env r) = NoResponse"
  shows "\<exists>a'. request r env method params a
                = (Some (Rejected (Error ''REQUEST_TIMEOUT'' None)), [RequestCall r], a') \<and>
              pendingRequests a' (messageId a) = None \<and>
              clock a' = clock a + REQUEST_TIMEOUT \<and>
              map w_id (sendLog a') = map w_id (sendLog a) @ [messageId a] \<and>
              messageId a' = Suc (messageId a)"
proof -
  note T = try_once_no_response [OF assms]
  have "request r env method params a
          = (Some (Rejected (Error ''REQUEST_TIMEOUT'' None)), [RequestCall r],
             snd (try_once (env r) method params a))"
    by (rule request_of_try_once [where env = env and r = r, OF T(1)])
  then show ?thesis using T(2,3,4,5) by blast
qed

theorem request_timeout_witness:
  "channel_inv (open_api ''shelly1_switch:0'') \<and> isConnected (open_api ''shelly1_switch:0'') \<and>
   ws (open_api ''shelly1_switch:0'') \<noteq> None \<and>
   sendResult (env_no_response 1) = SendOk \<and> exchange (env_no_response 1) = NoResponse \<and>
   (\<exists>a'. request 1 env_no_response ''Switch.GetStatus'' (JObj [(''id'', JNum 0)])
            (open_api ''shelly1_switch:0'')
          = (Some (Rejected (Error ''REQUEST_TIMEOUT'' None)), [RequestCall 1], a') \<and>
         pendingRequests a' (messageId (open_api ''shelly1_switch:0'')) = None)"
proof -
  let ?a = "open_api ''shelly1_switch:0''"
  have i: "channel_inv ?a" by (rule channel_inv_open_api)
  have c: "isConnected ?a" by (rule open_api_connected)
  have w: "ws ?a \<noteq> None" by (simp add: open_api_ws)
  have s: "sendResult (env_no_response 1) = SendOk" by (simp add: env_no_response_def)
  have x: "exchange (env_no_response 1) = NoResponse" by (simp add: env_no_response_def)
  show ?thesis
    using request_timeout [where env = env_no_response and r = 1, OF i c w s x] i c w s x by blast
qed

subsection \<open>Correlation ids\<close>

lemma unmatched_response_dropped:
  assumes "\<not> is_notification msg" and "field msg ''id'' \<noteq> None"
    and "\<forall>k. id_key (field msg ''id'') = Some k \<longrightarrow> pendingRequests a k = None"
  shows "handleMessage msg a = Inr a"
proof -
  have "msg \<noteq> JNull" using assms(2) by auto
  moreover have "handleRpcResponse msg a = a"
    using assms(3) by (simp add: handleRpcResponse_def split: option.splits)
  ultimately show ?thesis using assms(1) by (simp add: handleMessage_def)
qed

lemma handleMessage_messageId:
  "handleMessage m a = Inr a' \<Longrightarrow> messageId a' = messageId a"
  by (auto simp: handleMessage_def dest: handleNotification_messageId split: if_splits)

lemma cleanupWebSocket_messageId: "messageId (cleanupWebSocket a) = messageId a"
  by (simp add: cleanupWebSocket_def split: option.splits)

lemma step_ids:
  assumes "step e a = Inr a'"
  shows "messageId a \<le> messageId a' \<and> ids_of e a = [messageId a..<messageId a']"
proof (cases e)
  case (Ws_message m)
  then have "messageId a' = messageId a"
    using assms by (simp add: handleMessage_messageId)
  then show ?thesis using Ws_message by simp
next
  case (Ws_error err)
  then have "messageId a' = messageId a"
    using assms by (auto simp: handleError_state cleanupWebSocket_messageId)
  then show ?thesis using Ws_error by simp
next
  case (Request m p sr)
  then have "messageId a' = Suc (messageId a)" using assms by auto
  then show ?thesis using Request by (simp add: request_send_id)
next
  case (Ws_open sr)
  show ?thesis
  proof (cases "ws a = Some CONNECTING")
    case True
    then have "messageId a' = Suc (messageId a)" using assms Ws_open by auto
    then show ?thesis using Ws_open True by (simp add: request_send_id)
  next
    case False
    then show ?thesis using assms Ws_open by auto
  qed
qed (use assms in \<open>auto simp: disconnect_def cleanupWebSocket_messageId setNotificationHandler_def\<close>)

lemma upt_join: "(m::nat) \<le> n \<Longrightarrow> n \<le> k \<Longrightarrow> [m..<n] @ [n..<k] = [m..<k]"
  by (metis le_Suc_ex upt_add_eq_append)

lemma run_ids:
  "run a evs = Inr a' \<Longrightarrow>
   messageId a \<le> messageId a' \<and> ids_taken a evs = [messageId a..<messageId a']"
proof (induction evs arbitrary: a)
  case Nil
  then show ?case by simp
next
  case (Cons e es)
  then obtain a1 where s: "step e a = Inr a1" and r: "run a1 es = Inr a'"
    by (auto split: sum.splits)
  note S = step_ids [OF s]
  note R = Cons.IH [OF r]
  have "ids_taken a (e # es) = [messageId a..<messageId a1] @ [messageId a1..<messageId a']"
    using s S R by simp
  then show ?case using S R by (simp add: upt_join)
qed

text \<open>
  C6. The ids that the requests of a channel take from its construction on are 1, 2, ...
  up to \<open>messageId - 1\<close> in this order, so they start at 1 and increase strictly, and they
  are the ids of the messages logged. In every state reached the pending ids lie among
  them; the next request takes \<open>messageId\<close>, which no request took before and under
  which nothing is pending, moves \<open>messageId\<close> on by one, stores its slot under the id it
  took and logs its message with it. A message that is not a notification and bears an id
  matching no pending entry leaves the channel state as it is.
\<close>

theorem correlation_ids:
  assumes "run (ShellyApi_new i d) evs = Inr a"
  shows "ids_taken (ShellyApi_new i d) evs = [1..<messageId a] \<and>
         sorted_wrt (<) (ids_taken (ShellyApi_new i d) evs) \<and>
         map w_id (sendLog a) = ids_taken (ShellyApi_new i d) evs \<and>
         (\<forall>k\<in>dom (pendingRequests a). 1 \<le> k \<and> k < messageId a) \<and>
         (\<forall>method params sr.
            fst (request_send method params sr (ShellyApi_new i d)) = 1 \<and>
            fst (request_send method params sr a) = messageId a \<and>
            messageId a \<notin> set (ids_taken (ShellyApi_new i d) evs) \<and>
            messageId a \<notin> dom (pendingRequests a) \<and>
            messageId (snd (request_send method params sr a)) = Suc (messageId a) \<and>
            pendingRequests (snd (request_send method params sr a))
              = (pendingRequests a)(messageId a \<mapsto> Resolver (messageId a)) \<and>
            map w_id (sendLog (snd (request_send method params sr a)))
              = map w_id (sendLog a) @ [messageId a]) \<and>
         (\<forall>msg. \<not> is_notification msg \<and> field msg ''id'' \<noteq> None \<and>
                (\<forall>k. id_key (field msg ''id'') = Some k \<longrightarrow> pendingRequests a k = None)
                \<longrightarrow> handleMessage msg a = Inr a)"
proof -
  have inv: "channel_inv a"
    using channel_inv_run [OF assms channel_inv_new] .
  note D = channel_invD [OF inv]
  have m1: "messageId (ShellyApi_new i d) = 1" by (simp add: ShellyApi_new_def)
  have taken: "ids_taken (ShellyApi_new i d) evs = [1..<messageId a]"
    using run_ids [OF assms] m1 by simp
  have srt: "sorted_wrt (<) (ids_taken (ShellyApi_new i d) evs)"
    unfolding taken by (simp add: sorted_wrt_upt)
  have ids: "map w_id (sendLog a) = ids_taken (ShellyApi_new i d) evs"
    unfolding taken by (rule D(2))
  have dom: "\<forall>k\<in>dom (pendingRequests a). 1 \<le> k \<and> k < messageId a"
  proof
    fix k assume "k \<in> dom (pendingRequests a)"
    then have some: "pendingRequests a k \<noteq> None" by auto
    have "\<not> (k < 1 \<or> messageId a \<le> k)"
    proof
      assume "k < 1 \<or> messageId a \<le> k"
      then have "pendingRequests a k = None" by (rule D(3))
      then show False using some by simp
    qed
    then show "1 \<le> k \<and> k < messageId a" by simp
  qed
  have first: "fst (request_send m p sr (ShellyApi_new i d)) = 1" for m p sr
    using m1 by (simp add: request_send_id)
  have nxt: "messageId a \<notin> dom (pendingRequests a)" using dom by auto
  have ntaken: "messageId a \<notin> set (ids_taken (ShellyApi_new i d) evs)" unfolding taken by simp
  have adv: "messageId (snd (request_send m p sr a)) = Suc (messageId a)"
    for m p sr by simp
  have slot: "pendingRequests (snd (request_send m p sr a))
                = (pendingRequests a)(messageId a \<mapsto> Resolver (messageId a))"
    for m p sr by simp
  have req: "\<forall>method params sr.
            fst (request_send method params sr (ShellyApi_new i d)) = 1 \<and>
            fst (request_send method params sr a) = messageId a \<and>
            messageId a \<notin> set (ids_taken (ShellyApi_new i d) evs) \<and>
            messageId a \<notin> dom (pendingRequests a) \<and>
            messageId (snd (request_send method params sr a)) = Suc (messageId a) \<and>
            pendingRequests (snd (request_send method params sr a))
              = (pendingRequests a)(messageId a \<mapsto> Resolver (messageId a)) \<and>
            map w_id (sendLog (snd (request_send method params sr a)))
              = map w_id (sendLog a) @ [messageId a]"
    using first nxt ntaken adv slot request_send_id request_send_log by (intro allI conjI)
  have um: "\<forall>msg. \<not> is_notification msg \<and> field msg ''id'' \<noteq> None \<and>
                (\<forall>k. id_key (field msg ''id'') = Some k \<longrightarrow> pendingRequests a k = None)
                \<longrightarrow> handleMessage msg a = Inr a"
    using unmatched_response_dropped by blast
  show ?thesis
    by (intro conjI) (rule taken srt ids dom req um)+
qed

lemma run_ev_three:
  "\<exists>a. run (ShellyApi_new ''192.168.1.50'' (Some ''shelly1_switch:0'')) ev_three = Inr a"
  by (simp add: ev_three_def)

theorem correlation_ids_witness:
  "\<exists>a. run (ShellyApi_new ''192.168.1.50'' (Some ''shelly1_switch:0'')) ev_three = Inr a \<and>
       ids_taken (ShellyApi_new ''192.168.1.50'' (Some ''shelly1_switch:0'')) ev_three = [1, 2] \<and>
       map w_id (sendLog a) = [1, 2] \<and>
       messageId a = 3 \<and>
       fst (request_send ''Switch.Set'' (JObj []) SendOk a) = 3 \<and>
       messageId (snd (request_send ''Switch.Set'' (JObj []) SendOk a)) = 4 \<and>
       pendingRequests (snd (request_send ''Switch.Set'' (JObj []) SendOk a)) 3 = Some (Resolver 3) \<and>
       3 \<notin> dom (pendingRequests a) \<and>
       handleMessage stale_response a = Inr a"
proof -
  obtain a where r: "run (ShellyApi_new ''192.168.1.50'' (Some ''shelly1_switch:0'')) ev_three = Inr a"
    using run_ev_three by blast
  note C = correlation_ids [OF r]
  have n: "\<not> is_notification stale_response" "field stale_response ''id'' \<noteq> None"
    by (simp_all add: stale_response_def is_notification_def)
  have k: "id_key (field stale_response ''id'') = Some 7"
    by (simp add: stale_response_def id_key_def)
  have m: "messageId a = 3"
    using r by (auto simp: ev_three_def ShellyApi_new_def)
  have u: "[1..<messageId a] = [1, 2]"
    unfolding m by (simp add: upt_rec)
  have b: "\<forall>k\<in>dom (pendingRequests a). 1 \<le> k \<and> k < messageId a" using C by blast
  have "pendingRequests a 7 = None"
  proof (rule ccontr)
    assume "pendingRequests a 7 \<noteq> None"
    then have "7 \<in> dom (pendingRequests a)" by auto
    then have "(7::nat) < messageId a" using b by blast
    then show False using m by simp
  qed
  then have s: "handleMessage stale_response a = Inr a"
    using C n k by simp
  have t: "ids_taken (ShellyApi_new ''192.168.1.50'' (Some ''shelly1_switch:0'')) ev_three = [1, 2]"
    using C u by simp
  have l: "map w_id (sendLog a) = [1, 2]" using C t by simp
  have f: "fst (request_send ''Switch.Set'' (JObj []) SendOk a) = 3" using C m by simp
  have g: "messageId (snd (request_send ''Switch.Set'' (JObj []) SendOk a)) = 4"
    using C m by simp
  have p: "pendingRequests (snd (request_send ''Switch.Set'' (JObj []) SendOk a)) 3 = Some (Resolver 3)"
    using C m by simp
  have q: "3 \<notin> dom (pendingRequests a)" using C m by metis
  show ?thesis
    by (intro exI [of _ a] conjI) (rule r t l m f g p q s)+
qed

subsection \<open>Splitting notification keys\<close>

lemma split_on_not_Nil [simp]: "split_on sep s \<noteq> []"
  by (induction s) (auto split: list.splits)









subsection \<open>Reshaping\<close>


lemma reshape_entry_eq:
  "reshape_entry kv u =
     (if fst kv = ''ts'' then Inr u
      else if filed (fst kv) then Inr (upd2 (key_pair (fst kv)) (snd kv) u)
      else Inl (Escapes (fst (key_pair (fst kv))) (snd (key_pair (fst kv))) (snd kv)))"
  by (cases "split_on CHR '':'' (fst kv)")
     (simp_all add: reshape_entry_def key_pair_def upd2_def filed_def Let_def)


lemma reshape_from_escapes:
  assumes "\<forall>k\<in>fst ` set front. k \<noteq> ''ts'' \<longrightarrow> filed k"
    and "fst kv \<noteq> ''ts''" and "\<not> filed (fst kv)"
  shows "reshape_from (front @ kv # back) u
           = Inl (Escapes (fst (key_pair (fst kv))) (snd (key_pair (fst kv))) (snd kv))"
  using assms(1)
proof (induction front arbitrary: u)
  case Nil
  then show ?case using assms(2,3) by (simp add: reshape_entry_eq)
next
  case (Cons x front)
  have e: "reshape_entry x u = Inr (file_entry x u)"
    using Cons.prems by (simp add: reshape_entry_eq file_entry_def)
  have "\<forall>k\<in>fst ` set front. k \<noteq> ''ts'' \<longrightarrow> filed k" using Cons.prems by simp
  then show ?case using Cons.IH [of "file_entry x u"] e by simp
qed




subsection \<open>Dispatch of notifications\<close>








section \<open>Discovery: properties\<close>

subsection \<open>The batches of a scan\<close>

declare scanNetworkInBatches.simps [simp del]

lemma length_generateIpRange: "length (generateIpRange b) = 254"
  by (simp add: generateIpRange_def)


lemma scan_round:
  assumes "i < length ips" and "t < DISCOVERY_TIMEOUT"
  shows "scanNetworkInBatches env ips i t =
           \<lparr>b_start = t, b_ips = take SCAN_BATCH_SIZE (drop i ips),
            b_settled = map (\<lambda>addr. t + tryDevice_settles (env addr)) (take SCAN_BATCH_SIZE (drop i ips)),
            b_joined = fold max (map (\<lambda>addr. t + tryDevice_settles (env addr))
                                   (take SCAN_BATCH_SIZE (drop i ips))) t\<rparr>
           # scanNetworkInBatches env ips (i + SCAN_BATCH_SIZE)
               (fold max (map (\<lambda>addr. t + tryDevice_settles (env addr))
                            (take SCAN_BATCH_SIZE (drop i ips))) t + BATCH_DELAY)"
  using assms by (subst scanNetworkInBatches.simps) (simp add: Let_def)

lemma fold_max_ge: "(a::nat) \<le> fold max xs a \<and> (\<forall>x\<in>set xs. x \<le> fold max xs a)"
proof (induction xs arbitrary: a)
  case Nil
  then show ?case by simp
next
  case (Cons x xs)
  have "max x a \<le> fold max xs (max x a)" using Cons.IH [of "max x a"] by blast
  then show ?case using Cons.IH [of "max x a"] by auto
qed

lemma fold_max_le: "(a::nat) \<le> b \<Longrightarrow> \<forall>x\<in>set xs. x \<le> b \<Longrightarrow> fold max xs a \<le> b"
  by (induction xs arbitrary: a) auto

lemma joined_bounds:
  "t \<le> fold max (map (\<lambda>addr. t + tryDevice_settles (env addr)) batch) t"
  "fold max (map (\<lambda>addr. t + tryDevice_settles (env addr)) batch) t \<le> t + CONNECTION_TIMEOUT"
proof -
  show "t \<le> fold max (map (\<lambda>addr. t + tryDevice_settles (env addr)) batch) t"
    using fold_max_ge by blast
  show "fold max (map (\<lambda>addr. t + tryDevice_settles (env addr)) batch) t \<le> t + CONNECTION_TIMEOUT"
    by (rule fold_max_le) (auto simp: tryDevice_settles_def)
qed

text \<open>Every round keeps its batch within the batch size, and the next round starts one
  delay after the join of the round before.\<close>

lemma scan_chained: "chained t (scanNetworkInBatches env ips i t)"
proof (induction "length ips - i" arbitrary: i t rule: less_induct)
  case less
  show ?case
  proof (cases "i < length ips \<and> t < DISCOVERY_TIMEOUT")
    case False
    then show ?thesis by (auto simp: scanNetworkInBatches.simps)
  next
    case True
    let ?batch = "take SCAN_BATCH_SIZE (drop i ips)"
    let ?settles = "map (\<lambda>addr. t + tryDevice_settles (env addr)) ?batch"
    let ?joined = "fold max ?settles t"
    have dec: "length ips - (i + SCAN_BATCH_SIZE) < length ips - i"
      using True by (auto simp: SCAN_BATCH_SIZE_def)
    have rest: "chained (?joined + BATCH_DELAY)
                  (scanNetworkInBatches env ips (i + SCAN_BATCH_SIZE) (?joined + BATCH_DELAY))"
      by (rule less.hyps [OF dec])
    have s: "\<forall>s\<in>set ?settles. t \<le> s \<and> s \<le> ?joined"
      using fold_max_ge [of t ?settles] by auto
    show ?thesis
      using True rest s joined_bounds [of t env ?batch]
      by (simp add: scan_round)
  qed
qed




lemma show_nat_1: "show_nat 1 = ''1''"
  by code_simp













subsection \<open>What a scan collects\<close>

lemma createDeviceEntries_ip: "d \<in> set (createDeviceEntries found info addr) \<Longrightarrow> d_ip d = addr"
  by (auto simp: createDeviceEntries_def createDeviceEntry_def)

lemma queryDevice_ip: "queryDevice r addr = Inr found \<Longrightarrow> d \<in> set found \<Longrightarrow> d_ip d = addr"
  by (auto simp: queryDevice_def createDeviceEntries_ip
      split: query_result.splits option.splits if_splits)

lemma listener_throws_member:
  "p \<in> set (listener_throws frames runs) \<Longrightarrow>
   \<exists>r\<in>set runs. \<exists>addr\<in>set (b_ips r). \<exists>t.
     frames addr = Some (t, snd p) \<and> fst p = b_start r + t \<and> fst p \<le> scan_end runs"
  by (auto simp: listener_throws_def split: option.splits) metis

lemma listener_throws_present:
  assumes "r \<in> set runs" and "addr \<in> set (b_ips r)"
    and "frames addr = Some (t, err)"
    and "b_start r + t \<le> scan_end runs"
  shows "(b_start r + t, err) \<in> set (listener_throws frames runs)"
  using assms by (force simp: listener_throws_def)

lemma listener_throws_none: "listener_throws no_frames runs = []"
proof (rule ccontr)
  assume "listener_throws no_frames runs \<noteq> []"
  then obtain p where "p \<in> set (listener_throws no_frames runs)"
    by (cases "listener_throws no_frames runs") auto
  then show False using listener_throws_member [of p no_frames runs] by (auto simp: no_frames_def)
qed

lemma discoverDevices_quiet:
  "listener_throws frames (scan_of env localAddress) = [] \<Longrightarrow>
   discoverDevices (Inr localAddress) env frames = Inr (collected env (scan_of env localAddress))"
  by (simp add: discoverDevices_def)

lemma discoverDevices_throws:
  assumes "p \<in> set (listener_throws frames (scan_of env localAddress))"
    and "\<forall>q\<in>set (listener_throws frames (scan_of env localAddress)). snd q = err"
  shows "discoverDevices (Inr localAddress) env frames = Inl err"
proof -
  let ?ts = "sort_key fst (listener_throws frames (scan_of env localAddress))"
  have s: "set ?ts = set (listener_throws frames (scan_of env localAddress))" by simp
  have "?ts \<noteq> []" using assms(1) s by (metis empty_iff empty_set)
  then obtain first later where f: "?ts = first # later" by (cases ?ts) auto
  then have "first \<in> set ?ts" by simp
  then have "snd first = err" using assms(2) s by blast
  then show ?thesis using f by (simp add: discoverDevices_def Let_def)
qed

lemma collected_source:
  assumes "d \<in> set (collected env runs)"
  shows "\<exists>r\<in>set runs. \<exists>addr\<in>set (b_ips r). \<exists>found.
           queryDevice (q_result (env addr)) addr = Inr found \<and> d \<in> set found \<and>
           b_start r + q_duration (env addr) \<le> scan_end runs"
proof -
  have "\<exists>p. p \<in> set (concat (map (pushes env) runs)) \<and> fst p \<le> scan_end runs \<and>
            d \<in> set (snd p)"
    using assms by (auto simp: collected_def)
  then obtain p where p: "p \<in> set (concat (map (pushes env) runs))" "fst p \<le> scan_end runs"
      "d \<in> set (snd p)"
    by blast
  then obtain r where r: "r \<in> set runs" "p \<in> set (pushes env r)" by auto
  then obtain addr where a: "addr \<in> set (b_ips r)"
      "p \<in> set (case queryDevice (q_result (env addr)) addr of
                    Inl err \<Rightarrow> []
                  | Inr found \<Rightarrow> [(b_start r + q_duration (env addr), found)])"
    by (auto simp: pushes_def)
  then obtain found where f: "queryDevice (q_result (env addr)) addr = Inr found"
      "p = (b_start r + q_duration (env addr), found)"
    by (cases "queryDevice (q_result (env addr)) addr") auto
  show ?thesis using p r a f by auto
qed

lemma collected_present:
  assumes "r \<in> set runs" and "addr \<in> set (b_ips r)"
    and "queryDevice (q_result (env addr)) addr = Inr found"
    and "b_start r + q_duration (env addr) \<le> scan_end runs"
  shows "set found \<subseteq> set (collected env runs)"
proof -
  have "(b_start r + q_duration (env addr), found) \<in> set (pushes env r)"
    using assms(2,3) by (force simp: pushes_def)
  then have "(b_start r + q_duration (env addr), found) \<in> set (concat (map (pushes env) runs))"
    using assms(1) by auto
  then show ?thesis
    using assms(4) by (force simp: collected_def)
qed

lemma collected_absent:
  assumes "(\<exists>e. queryDevice (q_result (env addr)) addr = Inl e) \<or>
           (\<forall>r\<in>set runs. addr \<in> set (b_ips r) \<longrightarrow>
               scan_end runs < b_start r + q_duration (env addr))"
  shows "\<forall>d\<in>set (collected env runs). d_ip d \<noteq> addr"
proof
  fix d assume "d \<in> set (collected env runs)"
  then obtain r a found where s: "r \<in> set runs" "a \<in> set (b_ips r)"
      "queryDevice (q_result (env a)) a = Inr found" "d \<in> set found"
      "b_start r + q_duration (env a) \<le> scan_end runs"
    using collected_source by blast
  have ip: "d_ip d = a" using queryDevice_ip [OF s(3,4)] .
  show "d_ip d \<noteq> addr"
  proof
    assume "d_ip d = addr"
    then have "a = addr" using ip by simp
    then show False using assms s by auto
  qed
qed

lemma queryDevice_rejected:
  "\<exists>e. queryDevice (InfoRejected err) addr = Inl e"
  "\<exists>e. queryDevice (StatusRejected err) addr = Inl e"
  "\<exists>e. queryDevice (Answered None status) addr = Inl e"
  "\<exists>e. queryDevice (Answered info None) addr = Inl e"
  "\<exists>e. queryDevice (Answered (Some JNull) status) addr = Inl e"
  "\<exists>e. queryDevice (Answered info (Some JNull)) addr = Inl e"
  by (simp_all add: queryDevice_def split: option.splits)

text \<open>
  C9 (as amended). \<open>discoverDevices\<close> returns the empty list when the local address
  cannot be read. A query is rejected when \<open>getDeviceInfo\<close> or \<open>getStatus\<close> is rejected
  (by a refused or reset connection, a reply that is not the expected upgrade, an error
  response or a request that times out) and when a result is missing or \<open>null\<close>. As long
  as no frame makes a message listener throw while the scan runs, \<open>discoverDevices\<close>
  returns a list; no entry of it carries the address of a probe whose query was rejected,
  nor the address of a probe whose query is still running when the loop is left; and the
  entries of every query that ended well by then are in it.
\<close>

theorem discovery_absorbs_failures:
  "discoverDevices (Inl err) env frames = Inr [] \<and>
   (\<forall>e addr info status.
      (\<exists>e'. queryDevice (InfoRejected e) addr = Inl e') \<and>
      (\<exists>e'. queryDevice (StatusRejected e) addr = Inl e') \<and>
      (\<exists>e'. queryDevice (Answered None status) addr = Inl e') \<and>
      (\<exists>e'. queryDevice (Answered info None) addr = Inl e') \<and>
      (\<exists>e'. queryDevice (Answered (Some JNull) status) addr = Inl e') \<and>
      (\<exists>e'. queryDevice (Answered info (Some JNull)) addr = Inl e')) \<and>
   (\<forall>localAddress.
      listener_throws frames (scan_of env localAddress) = []
      \<longrightarrow> (\<exists>found.
             discoverDevices (Inr localAddress) env frames = Inr found \<and>
             (\<forall>addr.
                (\<exists>e. queryDevice (q_result (env addr)) addr = Inl e) \<or>
                (\<forall>r\<in>set (scan_of env localAddress). addr \<in> set (b_ips r) \<longrightarrow>
                    scan_end (scan_of env localAddress) < b_start r + q_duration (env addr))
                \<longrightarrow> (\<forall>d\<in>set found. d_ip d \<noteq> addr)) \<and>
             (\<forall>r addr entries.
                r \<in> set (scan_of env localAddress) \<and> addr \<in> set (b_ips r) \<and>
                queryDevice (q_result (env addr)) addr = Inr entries \<and>
                b_start r + q_duration (env addr) \<le> scan_end (scan_of env localAddress)
                \<longrightarrow> set entries \<subseteq> set found)))"
proof (intro conjI allI impI)
  show "discoverDevices (Inl err) env frames = Inr []"
    by (simp add: discoverDevices_def)
next
  fix localAddress
  assume q: "listener_throws frames (scan_of env localAddress) = []"
  let ?found = "collected env (scan_of env localAddress)"
  have r: "discoverDevices (Inr localAddress) env frames = Inr ?found"
    using q by (rule discoverDevices_quiet)
  have ab: "\<forall>addr.
                (\<exists>e. queryDevice (q_result (env addr)) addr = Inl e) \<or>
                (\<forall>r\<in>set (scan_of env localAddress). addr \<in> set (b_ips r) \<longrightarrow>
                    scan_end (scan_of env localAddress) < b_start r + q_duration (env addr))
                \<longrightarrow> (\<forall>d\<in>set ?found. d_ip d \<noteq> addr)"
    using collected_absent by blast
  have pr: "\<forall>r addr entries.
                r \<in> set (scan_of env localAddress) \<and> addr \<in> set (b_ips r) \<and>
                queryDevice (q_result (env addr)) addr = Inr entries \<and>
                b_start r + q_duration (env addr) \<le> scan_end (scan_of env localAddress)
                \<longrightarrow> set entries \<subseteq> set ?found"
    using collected_present by blast
  show "\<exists>found.
             discoverDevices (Inr localAddress) env frames = Inr found \<and>
             (\<forall>addr.
                (\<exists>e. queryDevice (q_result (env addr)) addr = Inl e) \<or>
                (\<forall>r\<in>set (scan_of env localAddress). addr \<in> set (b_ips r) \<longrightarrow>
                    scan_end (scan_of env localAddress) < b_start r + q_duration (env addr))
                \<longrightarrow> (\<forall>d\<in>set found. d_ip d \<noteq> addr)) \<and>
             (\<forall>r addr entries.
                r \<in> set (scan_of env localAddress) \<and> addr \<in> set (b_ips r) \<and>
                queryDevice (q_result (env addr)) addr = Inr entries \<and>
                b_start r + q_duration (env addr) \<le> scan_end (scan_of env localAddress)
                \<longrightarrow> set entries \<subseteq> set found)"
    by (intro exI [of _ ?found] conjI) (rule r ab pr)+
qed (rule queryDevice_rejected)+

subsection \<open>The first probe of a scan\<close>

lemma chained_end:
  "chained t (r # rs) \<Longrightarrow> b_joined r + BATCH_DELAY \<le> scan_end (r # rs)"
proof (induction rs arbitrary: t r)
  case Nil
  then show ?case by (simp add: scan_end_def)
next
  case (Cons r' rs)
  have c: "chained (b_joined r + BATCH_DELAY) (r' # rs)" using Cons.prems by simp
  have "b_joined r + BATCH_DELAY \<le> b_joined r'" using c by simp
  moreover have "b_joined r' + BATCH_DELAY \<le> scan_end (r' # rs)" by (rule Cons.IH [OF c])
  moreover have "scan_end (r # r' # rs) = scan_end (r' # rs)" by (simp add: scan_end_def)
  ultimately show ?case by simp
qed

lemma baseIp_example: "baseIp_of ''192.168.1.23'' = ''192.168.1''"
  by (simp add: baseIp_of_def)

text \<open>The address \<open>.1\<close> is probed in the first round, which starts at 0, and what
  happens up to 100 ms after its probe has settled happens before the loop is left.\<close>

lemma first_probe_at:
  assumes "t \<le> tryDevice_settles (env ''192.168.1.1'') + BATCH_DELAY"
  shows "\<exists>r. r \<in> set (scan_of env ''192.168.1.23'') \<and> b_start r = 0 \<and>
             ''192.168.1.1'' \<in> set (b_ips r) \<and>
             b_start r + t \<le> scan_end (scan_of env ''192.168.1.23'')"
proof -
  let ?ips = "generateIpRange ''192.168.1''"
  let ?runs = "scan_of env ''192.168.1.23''"
  let ?batch = "take SCAN_BATCH_SIZE (drop 0 ?ips)"
  let ?settles = "map (\<lambda>addr. 0 + tryDevice_settles (env addr)) ?batch"
  have len: "length ?ips = 254" by (rule length_generateIpRange)
  have first: "?ips ! 0 = ''192.168.1.1''"
    using show_nat_1 by (simp add: generateIpRange_def)
  have inb: "''192.168.1.1'' \<in> set ?batch"
  proof -
    have "?batch ! 0 = ''192.168.1.1''" using first len by (simp add: SCAN_BATCH_SIZE_def)
    moreover have "0 < length ?batch" using len by (simp add: SCAN_BATCH_SIZE_def)
    ultimately show ?thesis by (metis nth_mem)
  qed
  obtain rest where runs: "?runs =
      \<lparr>b_start = 0, b_ips = ?batch, b_settled = ?settles, b_joined = fold max ?settles 0\<rparr> # rest"
    unfolding scan_of_def baseIp_example
    using scan_round [of 0 ?ips 0 env] len by (simp add: DISCOVERY_TIMEOUT_def)
  let ?r0 = "\<lparr>b_start = 0, b_ips = ?batch, b_settled = ?settles, b_joined = fold max ?settles 0\<rparr>"
  have ch: "chained 0 (?r0 # rest)"
    using scan_chained [of 0 env ?ips 0] runs
    by (simp only: scan_of_def baseIp_example)
  have el: "0 + tryDevice_settles (env ''192.168.1.1'') \<in> set ?settles"
    using inb by (simp only: set_map) (rule imageI)
  have "\<forall>x\<in>set ?settles. x \<le> fold max ?settles 0"
    using fold_max_ge [of 0 ?settles] by blast
  then have "0 + tryDevice_settles (env ''192.168.1.1'') \<le> fold max ?settles 0"
    using el by blast
  then have j: "tryDevice_settles (env ''192.168.1.1'') \<le> b_joined ?r0"
    by simp
  have e: "b_joined ?r0 + BATCH_DELAY \<le> scan_end (?r0 # rest)"
    by (rule chained_end [OF ch])
  have late: "b_start ?r0 + t \<le> scan_end ?runs"
    unfolding runs using assms j e by simp
  have mem: "?r0 \<in> set ?runs" unfolding runs by simp
  have inb': "''192.168.1.1'' \<in> set (b_ips ?r0)" using inb by simp
  show ?thesis
    using mem inb' late by (intro exI [of _ ?r0]) simp
qed

lemma first_probe:
  assumes "q_duration (env ''192.168.1.1'') \<le> CONNECTION_TIMEOUT + BATCH_DELAY"
  shows "\<exists>r. r \<in> set (scan_of env ''192.168.1.23'') \<and> b_start r = 0 \<and>
             ''192.168.1.1'' \<in> set (b_ips r) \<and>
             b_start r + q_duration (env ''192.168.1.1'')
               \<le> scan_end (scan_of env ''192.168.1.23'')"
proof (rule first_probe_at)
  show "q_duration (env ''192.168.1.1'') \<le> tryDevice_settles (env ''192.168.1.1'') + BATCH_DELAY"
    using assms by (simp add: tryDevice_settles_def min_def)
qed

lemma plus2pm_query:
  "queryDevice (Answered (Some info_2pm) (Some status_2pm)) ''192.168.1.1'' = Inr [plus2pm_entry]"
  by (simp add: queryDevice_def info_2pm_def status_2pm_def parseComponents_def
      component_entry_def createDeviceEntries_def for_in_keys_def plus2pm_entry_def
      parseInt_def is_space_def strip_sign_def strip_radix_def read_digits_def digit_of_def)

lemma quiet_query: "\<exists>e. queryDevice (q_result (quiet_env addr)) addr = Inl e"
  by (simp add: quiet_env_def queryDevice_def)

theorem discovery_absorbs_failures_witness:
  "listener_throws no_frames (scan_of near_env ''192.168.1.23'') = [] \<and>
   queryDevice (q_result (near_env ''192.168.1.1'')) ''192.168.1.1'' = Inr [plus2pm_entry] \<and>
   (\<exists>e. queryDevice (q_result (near_env ''192.168.1.7'')) ''192.168.1.7'' = Inl e) \<and>
   (\<exists>found. discoverDevices (Inr ''192.168.1.23'') near_env no_frames = Inr found \<and>
            plus2pm_entry \<in> set found \<and>
            ''192.168.1.7'' \<notin> set (map d_ip found)) \<and>
   discoverDevices (Inl (Error ''no local address'' None)) near_env no_frames = Inr []"
proof -
  have lt: "listener_throws no_frames (scan_of near_env ''192.168.1.23'') = []"
    by (rule listener_throws_none)
  have q1: "queryDevice (q_result (near_env ''192.168.1.1'')) ''192.168.1.1'' = Inr [plus2pm_entry]"
    by (simp add: near_env_def plus2pm_query)
  have q7: "\<exists>e. queryDevice (q_result (near_env ''192.168.1.7'')) ''192.168.1.7'' = Inl e"
    using quiet_query [of "''192.168.1.7''"] by (simp add: near_env_def)
  have "q_duration (near_env ''192.168.1.1'') \<le> CONNECTION_TIMEOUT + BATCH_DELAY"
    by (simp add: near_env_def CONNECTION_TIMEOUT_def)
  then obtain r where r: "r \<in> set (scan_of near_env ''192.168.1.23'')"
      "''192.168.1.1'' \<in> set (b_ips r)"
      "b_start r + q_duration (near_env ''192.168.1.1'') \<le> scan_end (scan_of near_env ''192.168.1.23'')"
    using first_probe [of near_env] by blast
  note T = discovery_absorbs_failures [of "Error ''no local address'' None" near_env no_frames]
  have e: "discoverDevices (Inl (Error ''no local address'' None)) near_env no_frames = Inr []"
    using T by (rule conjunct1)
  note U = T [THEN conjunct2, THEN conjunct2, THEN spec, THEN mp, OF lt]
  then obtain found where f: "discoverDevices (Inr ''192.168.1.23'') near_env no_frames = Inr found"
    and ab: "\<forall>addr.
                (\<exists>e. queryDevice (q_result (near_env addr)) addr = Inl e) \<or>
                (\<forall>r\<in>set (scan_of near_env ''192.168.1.23''). addr \<in> set (b_ips r) \<longrightarrow>
                    scan_end (scan_of near_env ''192.168.1.23'') < b_start r + q_duration (near_env addr))
                \<longrightarrow> (\<forall>d\<in>set found. d_ip d \<noteq> addr)"
    and pr: "\<forall>r addr entries.
                r \<in> set (scan_of near_env ''192.168.1.23'') \<and> addr \<in> set (b_ips r) \<and>
                queryDevice (q_result (near_env addr)) addr = Inr entries \<and>
                b_start r + q_duration (near_env addr) \<le> scan_end (scan_of near_env ''192.168.1.23'')
                \<longrightarrow> set entries \<subseteq> set found"
    by (elim exE conjE)
  have "set [plus2pm_entry] \<subseteq> set found"
    using pr r q1 by blast
  then have p: "plus2pm_entry \<in> set found" by simp
  have "\<forall>d\<in>set found. d_ip d \<noteq> ''192.168.1.7''"
    using ab q7 by blast
  then have n: "''192.168.1.7'' \<notin> set (map d_ip found)" by auto
  have x: "\<exists>found. discoverDevices (Inr ''192.168.1.23'') near_env no_frames = Inr found \<and>
            plus2pm_entry \<in> set found \<and>
            ''192.168.1.7'' \<notin> set (map d_ip found)"
    by (intro exI [of _ found] conjI) (rule f p n)+
  show ?thesis
    by (intro conjI) (rule lt q1 q7 x e)+
qed

subsection \<open>A probe that times out and answers later, and a frame that is not JSON\<close>

text \<open>
  The claim as first stated fails in two ways. The per-device timeout: the device at
  \<open>.1\<close> answers both calls after 1600 ms, so its probe is settled by the timer at 1500 ms
  as not found, and its entry is in the list that \<open>discoverDevices\<close> returns. A malformed
  response: the device at \<open>.1\<close> sends a frame that is not JSON after 40 ms;
  \<open>JSON.parse\<close> throws in the message listener, outside every \<open>catch\<close> of the scan,
  and the run ends with that exception instead of a list.
\<close>

theorem late_answer_counterexample:
  "CONNECTION_TIMEOUT < q_duration (slow_env ''192.168.1.1'') \<and>
   tryDevice_settles (slow_env ''192.168.1.1'') = CONNECTION_TIMEOUT \<and>
   \<not> tryDevice_value (slow_env ''192.168.1.1'') ''192.168.1.1'' \<and>
   d_ip plus2pm_entry = ''192.168.1.1'' \<and>
   discoverDevices (Inr ''192.168.1.23'') slow_env no_frames
     = Inr (collected slow_env (scan_of slow_env ''192.168.1.23'')) \<and>
   plus2pm_entry \<in> set (collected slow_env (scan_of slow_env ''192.168.1.23'')) \<and>
   garbled_frames ''192.168.1.1''
     = Some (40, SyntaxError ''Unexpected token < in JSON at position 0'') \<and>
   discoverDevices (Inr ''192.168.1.23'') garbled_env garbled_frames
     = Inl (SyntaxError ''Unexpected token < in JSON at position 0'')"
proof -
  have d: "q_duration (slow_env ''192.168.1.1'') = 1600" by (simp add: slow_env_def)
  have a: "CONNECTION_TIMEOUT < q_duration (slow_env ''192.168.1.1'')"
    by (simp add: d CONNECTION_TIMEOUT_def)
  have b: "tryDevice_settles (slow_env ''192.168.1.1'') = CONNECTION_TIMEOUT"
    by (simp add: tryDevice_settles_def d CONNECTION_TIMEOUT_def)
  have c: "\<not> tryDevice_value (slow_env ''192.168.1.1'') ''192.168.1.1''"
    by (simp add: tryDevice_value_def d CONNECTION_TIMEOUT_def)
  have e: "d_ip plus2pm_entry = ''192.168.1.1''"
    by (simp add: plus2pm_entry_def createDeviceEntry_def)
  have lt: "listener_throws no_frames (scan_of slow_env ''192.168.1.23'') = []"
    by (rule listener_throws_none)
  have f: "discoverDevices (Inr ''192.168.1.23'') slow_env no_frames
             = Inr (collected slow_env (scan_of slow_env ''192.168.1.23''))"
    using lt by (rule discoverDevices_quiet)
  have "q_duration (slow_env ''192.168.1.1'') \<le> CONNECTION_TIMEOUT + BATCH_DELAY"
    by (simp add: d CONNECTION_TIMEOUT_def BATCH_DELAY_def)
  then obtain r where r: "r \<in> set (scan_of slow_env ''192.168.1.23'')"
      "''192.168.1.1'' \<in> set (b_ips r)"
      "b_start r + q_duration (slow_env ''192.168.1.1'') \<le> scan_end (scan_of slow_env ''192.168.1.23'')"
    using first_probe [of slow_env] by blast
  have q: "queryDevice (q_result (slow_env ''192.168.1.1'')) ''192.168.1.1'' = Inr [plus2pm_entry]"
    by (simp add: slow_env_def plus2pm_query)
  have "set [plus2pm_entry] \<subseteq> set (collected slow_env (scan_of slow_env ''192.168.1.23''))"
    by (rule collected_present [where env = slow_env and addr = "''192.168.1.1''", OF r(1,2) q r(3)])
  then have g: "plus2pm_entry \<in> set (collected slow_env (scan_of slow_env ''192.168.1.23''))"
    by simp
  let ?err = "SyntaxError ''Unexpected token < in JSON at position 0''"
  have h: "garbled_frames ''192.168.1.1'' = Some (40, ?err)"
    by (simp add: garbled_frames_def)
  have "40 \<le> tryDevice_settles (garbled_env ''192.168.1.1'') + BATCH_DELAY"
    by (simp add: tryDevice_settles_def garbled_env_def CONNECTION_TIMEOUT_def)
  then obtain r' where r': "r' \<in> set (scan_of garbled_env ''192.168.1.23'')"
      "b_start r' = 0" "''192.168.1.1'' \<in> set (b_ips r')"
      "b_start r' + 40 \<le> scan_end (scan_of garbled_env ''192.168.1.23'')"
    using first_probe_at [of 40 garbled_env] by blast
  have p: "(b_start r' + 40, ?err)
             \<in> set (listener_throws garbled_frames (scan_of garbled_env ''192.168.1.23''))"
    by (rule listener_throws_present
          [where frames = garbled_frames and addr = "''192.168.1.1''", OF r'(1,3) h r'(4)])
  have only: "\<forall>q\<in>set (listener_throws garbled_frames (scan_of garbled_env ''192.168.1.23'')).
                snd q = ?err"
  proof
    fix q assume "q \<in> set (listener_throws garbled_frames (scan_of garbled_env ''192.168.1.23''))"
    then obtain addr t where "garbled_frames addr = Some (t, snd q)"
      using listener_throws_member by blast
    then show "snd q = ?err"
      by (cases "addr = ''192.168.1.1''") (simp_all add: garbled_frames_def)
  qed
  have i: "discoverDevices (Inr ''192.168.1.23'') garbled_env garbled_frames = Inl ?err"
    by (rule discoverDevices_throws [OF p only])
  show ?thesis
    by (intro conjI) (rule a b c e f g h i)+
qed

end
